theory Spec2Isabelle
  imports Complex_Main "HOL-Library.Word" "HOL-Library.Monad_Syntax"
begin

unbundle bit_operations_syntax

section \<open>JavaScript values used by the audio pipeline\<close>

text \<open>
  The program is \<^verbatim>\<open>src/index.tsx\<close> (the voice client); \<^verbatim>\<open>src/unnamed/part_000\<close> is
  the text client, whose audio functions and turn loop are the same code.

  A \<^verbatim>\<open>Uint8Array\<close> or \<^verbatim>\<open>ArrayBuffer\<close> is a list of bytes. A JavaScript string is a
  \<open>string\<close>: the code units 0..255, which is exactly the range of the binary strings
  that \<^verbatim>\<open>btoa\<close> and \<^verbatim>\<open>atob\<close> exchange; code units above 255 are outside the model.
  A JavaScript number is \<open>NaN\<close>, an infinity or a finite double, held as the rational
  it denotes; every arithmetic result is rounded to the nearest double, ties to even, as
  IEEE 754 prescribes. The sign of zero is not modelled: the code never divides by zero,
  which is the only place where it shows. A thrown exception is the result \<open>None\<close>.
\<close>

type_synonym u8 = "8 word"

datatype jsnum = NaN | Num rat | PosInf | NegInf

text \<open>Rounding a real value to a double. The exponent of \<open>q\<close> is the greatest \<open>e\<close> from
  -1022 to 1023 with \<open>2^e \<le> |q|\<close> (-1022 for the subnormal numbers); the doubles around
  \<open>q\<close> are the multiples of \<open>2^(e - 52)\<close>, and the nearest one is taken, the one with the
  even significand on a tie; a result of \<open>2^1024\<close> is an infinity.\<close>

definition exponentOf :: "rat \<Rightarrow> int" where
  "exponentOf q =
     Max (insert (- 1022) (Set.filter (\<lambda>e. 2 powi e \<le> \<bar>q\<bar>) {- 1022 .. 1023}))"

definition roundHalfEven :: "rat \<Rightarrow> int" where
  "roundHalfEven x =
     (let f = \<lfloor>x\<rfloor>; d = x - of_int f
      in if d < 1 / 2 then f else if 1 / 2 < d then f + 1 else if even f then f else f + 1)"

definition roundDouble :: "rat \<Rightarrow> jsnum" where
  "roundDouble q =
     (let ulp = 2 powi (exponentOf q - 52);
          r = of_int (roundHalfEven (\<bar>q\<bar> / ulp)) * ulp
      in if 2 powi 1024 \<le> r then (if 0 < q then PosInf else NegInf)
         else Num (if q < 0 then - r else r))"

text \<open>The operators \<^verbatim>\<open>+\<close>, \<^verbatim>\<open>*\<close> and \<^verbatim>\<open>/\<close> on numbers.\<close>

fun jsAdd :: "jsnum \<Rightarrow> jsnum \<Rightarrow> jsnum" where
  "jsAdd NaN _ = NaN"
| "jsAdd _ NaN = NaN"
| "jsAdd (Num a) (Num b) = roundDouble (a + b)"
| "jsAdd PosInf NegInf = NaN"
| "jsAdd NegInf PosInf = NaN"
| "jsAdd PosInf _ = PosInf"
| "jsAdd NegInf _ = NegInf"
| "jsAdd (Num a) b = b"

fun jsMul :: "jsnum \<Rightarrow> jsnum \<Rightarrow> jsnum" where
  "jsMul NaN _ = NaN"
| "jsMul _ NaN = NaN"
| "jsMul (Num a) (Num b) = roundDouble (a * b)"
| "jsMul (Num a) PosInf = (if a = 0 then NaN else if 0 < a then PosInf else NegInf)"
| "jsMul (Num a) NegInf = (if a = 0 then NaN else if 0 < a then NegInf else PosInf)"
| "jsMul PosInf (Num b) = (if b = 0 then NaN else if 0 < b then PosInf else NegInf)"
| "jsMul NegInf (Num b) = (if b = 0 then NaN else if 0 < b then NegInf else PosInf)"
| "jsMul PosInf PosInf = PosInf"
| "jsMul PosInf NegInf = NegInf"
| "jsMul NegInf PosInf = NegInf"
| "jsMul NegInf NegInf = PosInf"

text \<open>Division; a zero divisor is taken as \<open>+0\<close> (the code only divides by the literal 8).\<close>

fun jsDiv :: "jsnum \<Rightarrow> jsnum \<Rightarrow> jsnum" where
  "jsDiv NaN _ = NaN"
| "jsDiv _ NaN = NaN"
| "jsDiv (Num a) (Num b) =
     (if b = 0 then (if a = 0 then NaN else if 0 < a then PosInf else NegInf)
      else roundDouble (a / b))"
| "jsDiv (Num a) _ = Num 0"
| "jsDiv PosInf (Num b) = (if b < 0 then NegInf else PosInf)"
| "jsDiv NegInf (Num b) = (if b < 0 then PosInf else NegInf)"
| "jsDiv _ _ = NaN"

definition isNaN :: "jsnum \<Rightarrow> bool" where
  "isNaN v = (v = NaN)"

text \<open>\<^verbatim>\<open>ToUint8\<close>, \<^verbatim>\<open>ToUint16\<close>, \<^verbatim>\<open>ToUint32\<close> of ECMAScript: \<open>NaN\<close> and the infinities
  become 0, a finite number is truncated towards zero and reduced modulo \<open>2^w\<close>.\<close>

definition truncate_num :: "rat \<Rightarrow> int" where
  "truncate_num q = (if q < 0 then \<lceil>q\<rceil> else \<lfloor>q\<rfloor>)"

fun ToUint :: "jsnum \<Rightarrow> 'w::len word" where
  "ToUint (Num q) = word_of_int (truncate_num q)"
| "ToUint _ = 0"

definition charCodeAt :: "string \<Rightarrow> nat \<Rightarrow> jsnum" where
  "charCodeAt s i = (if i < length s then Num (of_nat (of_char (s ! i))) else NaN)"

subsection \<open>DataView writes\<close>

text \<open>Each write throws a \<^verbatim>\<open>RangeError\<close> (\<open>None\<close>) when it does not fit in the buffer.\<close>

definition setUint8 :: "nat \<Rightarrow> jsnum \<Rightarrow> u8 list \<Rightarrow> u8 list option" where
  "setUint8 byteOffset v buf =
     (if byteOffset + 1 \<le> length buf then Some (buf[byteOffset := ToUint v]) else None)"

definition setUint16 :: "nat \<Rightarrow> jsnum \<Rightarrow> bool \<Rightarrow> u8 list \<Rightarrow> u8 list option" where
  "setUint16 byteOffset v littleEndian buf =
     (let w = (ToUint v :: 16 word);
          b0 = (ucast w :: u8);
          b1 = (ucast (drop_bit 8 w) :: u8)
      in if byteOffset + 2 \<le> length buf
         then Some (if littleEndian
                    then buf[byteOffset := b0, byteOffset + 1 := b1]
                    else buf[byteOffset := b1, byteOffset + 1 := b0])
         else None)"

definition setUint32 :: "nat \<Rightarrow> jsnum \<Rightarrow> bool \<Rightarrow> u8 list \<Rightarrow> u8 list option" where
  "setUint32 byteOffset v littleEndian buf =
     (let w = (ToUint v :: 32 word);
          b0 = (ucast w :: u8);
          b1 = (ucast (drop_bit 8 w) :: u8);
          b2 = (ucast (drop_bit 16 w) :: u8);
          b3 = (ucast (drop_bit 24 w) :: u8)
      in if byteOffset + 4 \<le> length buf
         then Some (if littleEndian
                    then buf[byteOffset := b0, byteOffset + 1 := b1,
                             byteOffset + 2 := b2, byteOffset + 3 := b3]
                    else buf[byteOffset := b3, byteOffset + 1 := b2,
                             byteOffset + 2 := b1, byteOffset + 3 := b0])
         else None)"

section \<open>The WAV header\<close>

record WavConversionOptions =
  numChannels :: jsnum
  sampleRate :: jsnum
  bitsPerSample :: jsnum

text \<open>\<^verbatim>\<open>createWavHeader\<close>, write by write. \<^verbatim>\<open>new ArrayBuffer(44)\<close> is 44 zero bytes.\<close>

definition createWavHeader :: "jsnum \<Rightarrow> WavConversionOptions \<Rightarrow> u8 list option" where
  "createWavHeader dataLength options =
     (let byteRate = jsDiv (jsMul (jsMul (sampleRate options) (numChannels options))
                                  (bitsPerSample options)) (Num 8);
          blockAlign = jsDiv (jsMul (numChannels options) (bitsPerSample options)) (Num 8);
          buffer = replicate 44 (0 :: u8)
      in do {
        view \<leftarrow> setUint8 0 (charCodeAt ''R'' 0) buffer;
        view \<leftarrow> setUint8 1 (charCodeAt ''I'' 0) view;
        view \<leftarrow> setUint8 2 (charCodeAt ''F'' 0) view;
        view \<leftarrow> setUint8 3 (charCodeAt ''F'' 0) view;
        view \<leftarrow> setUint32 4 (jsAdd (Num 36) dataLength) True view;
        view \<leftarrow> setUint8 8 (charCodeAt ''W'' 0) view;
        view \<leftarrow> setUint8 9 (charCodeAt ''A'' 0) view;
        view \<leftarrow> setUint8 10 (charCodeAt ''V'' 0) view;
        view \<leftarrow> setUint8 11 (charCodeAt ''E'' 0) view;
        view \<leftarrow> setUint8 12 (charCodeAt ''f'' 0) view;
        view \<leftarrow> setUint8 13 (charCodeAt ''m'' 0) view;
        view \<leftarrow> setUint8 14 (charCodeAt ''t'' 0) view;
        view \<leftarrow> setUint8 15 (charCodeAt '' '' 0) view;
        view \<leftarrow> setUint32 16 (Num 16) True view;
        view \<leftarrow> setUint16 20 (Num 1) True view;
        view \<leftarrow> setUint16 22 (numChannels options) True view;
        view \<leftarrow> setUint32 24 (sampleRate options) True view;
        view \<leftarrow> setUint32 28 byteRate True view;
        view \<leftarrow> setUint16 32 blockAlign True view;
        view \<leftarrow> setUint16 34 (bitsPerSample options) True view;
        view \<leftarrow> setUint8 36 (charCodeAt ''d'' 0) view;
        view \<leftarrow> setUint8 37 (charCodeAt ''a'' 0) view;
        view \<leftarrow> setUint8 38 (charCodeAt ''t'' 0) view;
        view \<leftarrow> setUint8 39 (charCodeAt ''a'' 0) view;
        view \<leftarrow> setUint32 40 dataLength True view;
        Some view
      })"

section \<open>The MIME type of the audio\<close>

text \<open>\<^verbatim>\<open>String.prototype.split\<close> with a one-character separator: the pieces between the
  separators, never an empty array.\<close>

fun splitOn :: "char \<Rightarrow> string \<Rightarrow> string list" where
  "splitOn sep [] = [[]]"
| "splitOn sep (c # cs) =
     (if c = sep then [] # splitOn sep cs
      else (case splitOn sep cs of [] \<Rightarrow> [[c]] | p # ps \<Rightarrow> (c # p) # ps))"

text \<open>The white space and line terminators of ECMAScript among the code units 0..255:
  TAB, LF, VT, FF, CR, SPACE and NBSP.\<close>

definition isWhiteSpace :: "char \<Rightarrow> bool" where
  "isWhiteSpace c = ((of_char c :: nat) \<in> set [9, 10, 11, 12, 13, 32, 160])"

definition trim :: "string \<Rightarrow> string" where
  "trim s = rev (dropWhile isWhiteSpace (rev (dropWhile isWhiteSpace s)))"

definition isDigit :: "char \<Rightarrow> bool" where
  "isDigit c = (48 \<le> (of_char c :: nat) \<and> (of_char c :: nat) \<le> 57)"

definition digitsValue :: "string \<Rightarrow> int" where
  "digitsValue ds = foldl (\<lambda>acc c. 10 * acc + (of_char c - 48)) 0 ds"

text \<open>\<^verbatim>\<open>parseInt(str, 10)\<close>: leading white space is skipped, one sign is read, then the
  longest run of decimal digits; no digit at all gives \<open>NaN\<close>. What follows the digits is
  ignored. The integer read is converted to a number, that is, rounded to the nearest
  double (an infinity when it is too large), as the engines do for any number of digits.\<close>

definition parseInt10 :: "string \<Rightarrow> jsnum" where
  "parseInt10 str =
     (let s = dropWhile isWhiteSpace str;
          negative = (case s of c # _ \<Rightarrow> c = CHR ''-'' | [] \<Rightarrow> False);
          s = (case s of c # cs \<Rightarrow> if c = CHR ''+'' \<or> c = CHR ''-'' then cs else s | [] \<Rightarrow> s);
          z = takeWhile isDigit s
      in if z = [] then NaN
         else roundDouble (of_int ((if negative then - 1 else 1) * digitsValue z)))"

definition startsWith :: "string \<Rightarrow> string \<Rightarrow> bool" where
  "startsWith s p = (take (length p) s = p)"

text \<open>\<^verbatim>\<open>params[0].split('/')[1]\<close>: \<open>None\<close> is \<^verbatim>\<open>undefined\<close>. (\<open>params\<close> is never empty.)\<close>

definition formatPartOf :: "string list \<Rightarrow> string option" where
  "formatPartOf params =
     (case params of
        [] \<Rightarrow> None
      | p # _ \<Rightarrow> (case splitOn CHR ''/'' p of _ # f # _ \<Rightarrow> Some f | _ \<Rightarrow> None))"

text \<open>The body of the loop over \<open>params\<close>:
  \<^verbatim>\<open>const [key, value] = param.split('=').map(s => s.trim());\<close>
  \<^verbatim>\<open>if (key === 'rate' && value) options.sampleRate = parseInt(value, 10);\<close>\<close>

definition rateParam :: "WavConversionOptions \<Rightarrow> string \<Rightarrow> WavConversionOptions" where
  "rateParam options param =
     (case map trim (splitOn CHR ''='' param) of
        key # val # _ \<Rightarrow>
          if key = ''rate'' \<and> val \<noteq> [] then options\<lparr>sampleRate := parseInt10 val\<rparr>
          else options
      | _ \<Rightarrow> options)"

definition parseMimeType :: "string \<Rightarrow> WavConversionOptions" where
  "parseMimeType mimeType =
     (let params = map trim (splitOn CHR '';'' mimeType);
          formatPart = formatPartOf params;
          options = \<lparr>numChannels = Num 1, sampleRate = Num 24000, bitsPerSample = Num 16\<rparr>;
          options =
            (case formatPart of
               None \<Rightarrow> options
             | Some fp \<Rightarrow>
                 if fp \<noteq> [] \<and> startsWith fp ''L''
                 then (let bits = parseInt10 (drop 1 fp)
                       in if \<not> isNaN bits then options\<lparr>bitsPerSample := bits\<rparr> else options)
                 else options)
      in foldl rateParam options params)"

section \<open>Base64: \<^verbatim>\<open>btoa\<close> and \<^verbatim>\<open>atob\<close>\<close>

text \<open>The two platform functions, after the HTML standard (forgiving-base64 encode and
  decode of the Infra standard). A binary string is a \<open>string\<close>; \<^verbatim>\<open>btoa\<close> throws only on a
  code unit above 255, which a \<open>string\<close> cannot hold.\<close>

definition b64alphabet :: string where
  "b64alphabet = ''ABCDEFGHIJKLMNOPQRSTUVWXYZabcdefghijklmnopqrstuvwxyz0123456789+/''"

definition b64char :: "nat \<Rightarrow> char" where
  "b64char n = b64alphabet ! n"

fun btoa :: "string \<Rightarrow> string" where
  "btoa (a # b # c # rest) =
     (let x = (of_char a :: nat); y = (of_char b :: nat); z = (of_char c :: nat)
      in [b64char (x div 4), b64char ((x mod 4) * 16 + y div 16),
          b64char ((y mod 16) * 4 + z div 64), b64char (z mod 64)] @ btoa rest)"
| "btoa [a, b] =
     (let x = (of_char a :: nat); y = (of_char b :: nat)
      in [b64char (x div 4), b64char ((x mod 4) * 16 + y div 16),
          b64char ((y mod 16) * 4), CHR ''=''])"
| "btoa [a] =
     (let x = (of_char a :: nat)
      in [b64char (x div 4), b64char ((x mod 4) * 16), CHR ''='', CHR ''=''])"
| "btoa [] = []"

text \<open>ASCII white space of the Infra standard: TAB, LF, FF, CR and SPACE.\<close>

definition isAsciiWhitespace :: "char \<Rightarrow> bool" where
  "isAsciiWhitespace c = ((of_char c :: nat) \<in> set [9, 10, 12, 13, 32])"

fun indexOf :: "'a \<Rightarrow> 'a list \<Rightarrow> nat option" where
  "indexOf x [] = None"
| "indexOf x (y # ys) = (if x = y then Some 0 else map_option Suc (indexOf x ys))"

definition b64index :: "char \<Rightarrow> nat option" where
  "b64index c = indexOf c b64alphabet"

text \<open>If the data ends with one or two \<open>=\<close>, they are removed.\<close>

definition stripPadding :: "string \<Rightarrow> string" where
  "stripPadding d =
     (if 2 \<le> length d \<and> last d = CHR ''='' \<and> last (butlast d) = CHR ''=''
      then butlast (butlast d)
      else if d \<noteq> [] \<and> last d = CHR ''='' then butlast d
      else d)"

text \<open>The bit buffer of the decoder, four sextets at a time: 24 bits give three bytes;
  at the end 18 bits give two bytes and 12 bits give one, the spare bits dropped.\<close>

fun b64bytes :: "nat list \<Rightarrow> string" where
  "b64bytes (s1 # s2 # s3 # s4 # rest) =
     [char_of (s1 * 4 + s2 div 16), char_of ((s2 mod 16) * 16 + s3 div 4),
      char_of ((s3 mod 4) * 64 + s4)] @ b64bytes rest"
| "b64bytes [s1, s2, s3] =
     [char_of (s1 * 4 + s2 div 16), char_of ((s2 mod 16) * 16 + s3 div 4)]"
| "b64bytes [s1, s2] = [char_of (s1 * 4 + s2 div 16)]"
| "b64bytes _ = []"

definition atob :: "string \<Rightarrow> string option" where
  "atob encoded =
     (let d = filter (\<lambda>c. \<not> isAsciiWhitespace c) encoded;
          d = (if length d mod 4 = 0 then stripPadding d else d)
      in if length d mod 4 = 1 then None
         else (case those (map b64index d) of
                 None \<Rightarrow> None
               | Some sextets \<Rightarrow> Some (b64bytes sextets)))"

section \<open>Byte buffers and base64\<close>

text \<open>\<^verbatim>\<open>String.fromCharCode(bytes[i])\<close> and the loop of \<^verbatim>\<open>arrayBufferToBase64\<close>.\<close>

definition fromCharCode :: "u8 \<Rightarrow> char" where
  "fromCharCode b = char_of (unat b)"

function binaryLoop :: "u8 list \<Rightarrow> nat \<Rightarrow> string \<Rightarrow> string" where
  "binaryLoop bytes i binary =
     (if i < length bytes then binaryLoop bytes (i + 1) (binary @ [fromCharCode (bytes ! i)])
      else binary)"
  by pat_completeness auto
termination
  by (relation "measure (\<lambda>(bytes, i, binary). length bytes - i)") auto

definition arrayBufferToBase64 :: "u8 list \<Rightarrow> string" where
  "arrayBufferToBase64 buffer = btoa (binaryLoop buffer 0 [])"

text \<open>The loop of \<^verbatim>\<open>base64ToUint8Array\<close>: \<^verbatim>\<open>bytes[i] = binaryString.charCodeAt(i)\<close>; a store
  into a \<^verbatim>\<open>Uint8Array\<close> converts the number with \<^verbatim>\<open>ToUint8\<close>.\<close>

function bytesLoop :: "string \<Rightarrow> nat \<Rightarrow> u8 list \<Rightarrow> u8 list" where
  "bytesLoop binaryString i bytes =
     (if i < length binaryString
      then bytesLoop binaryString (i + 1) (bytes[i := ToUint (charCodeAt binaryString i)])
      else bytes)"
  by pat_completeness auto
termination
  by (relation "measure (\<lambda>(binaryString, i, bytes). length binaryString - i)") auto

definition base64ToUint8Array :: "string \<Rightarrow> u8 list option" where
  "base64ToUint8Array base64 =
     (case atob base64 of
        None \<Rightarrow> None
      | Some binaryString \<Rightarrow>
          Some (bytesLoop binaryString 0 (replicate (length binaryString) 0)))"

text \<open>\<^verbatim>\<open>target.set(source, offset)\<close> of a typed array; a \<^verbatim>\<open>RangeError\<close> when the source
  does not fit.\<close>

definition typedArraySet :: "u8 list \<Rightarrow> u8 list \<Rightarrow> nat \<Rightarrow> u8 list option" where
  "typedArraySet target source offset =
     (if offset + length source \<le> length target
      then Some (take offset target @ source @ drop (offset + length source) target)
      else None)"

fun concatLoop :: "u8 list list \<Rightarrow> nat \<Rightarrow> u8 list \<Rightarrow> u8 list option" where
  "concatLoop [] offset result = Some result"
| "concatLoop (arr # arrays) offset result =
     (case typedArraySet result arr offset of
        None \<Rightarrow> None
      | Some result' \<Rightarrow> concatLoop arrays (offset + length arr) result')"

definition concatUint8Arrays :: "u8 list list \<Rightarrow> u8 list option" where
  "concatUint8Arrays arrays =
     (let totalLength = foldl (\<lambda>acc val. acc + length val) 0 arrays;
          result = replicate totalLength (0 :: u8)
      in concatLoop arrays 0 result)"

text \<open>\<^verbatim>\<open>rawData.map(data => base64ToUint8Array(data))\<close> stops at the first chunk that
  \<^verbatim>\<open>atob\<close> rejects.\<close>

definition convertToWav :: "string list \<Rightarrow> string \<Rightarrow> u8 list option" where
  "convertToWav rawData mimeType =
     (let options = parseMimeType mimeType
      in do {
        dataChunks \<leftarrow> those (map base64ToUint8Array rawData);
        data \<leftarrow> concatUint8Arrays dataChunks;
        wavHeader \<leftarrow> createWavHeader (Num (of_nat (length data))) options;
        concatUint8Arrays [wavHeader, data]
      })"

section \<open>The turn loop\<close>

text \<open>The messages of the live session, with every optional field of the library's
  types as an \<open>option\<close>.\<close>

record Blob =
  data :: "string option"
  mimeType :: "string option"

record Part =
  partText :: "string option"
  inlineData :: "Blob option"

record Content =
  parts :: "Part list option"

record LiveServerContent =
  modelTurn :: "Content option"
  turnComplete :: "bool option"

record LiveServerMessage =
  serverContent :: "LiveServerContent option"

text \<open>The variables of \<^verbatim>\<open>handleTurn\<close>: the global \<^verbatim>\<open>audioParts\<close> and the locals
  \<^verbatim>\<open>turnComplete\<close> (here \<open>turnCompleteVar\<close>), \<^verbatim>\<open>turnText\<close> and \<^verbatim>\<open>audioMimeType\<close>; \<open>shown\<close>
  lists the texts passed to \<^verbatim>\<open>updateModelMessage\<close>.\<close>

record TurnState =
  audioParts :: "string list"
  turnCompleteVar :: bool
  turnText :: string
  audioMimeType :: string
  shown :: "string list"

text \<open>The body of the loop over the parts. A field is truthy when it is present and not
  the empty string.\<close>

definition processPart :: "TurnState \<Rightarrow> Part \<Rightarrow> TurnState" where
  "processPart st part =
     (let st = (case partText part of
                  Some t \<Rightarrow>
                    if t \<noteq> [] then st\<lparr>turnText := turnText st @ t,
                                         shown := shown st @ [turnText st @ t]\<rparr>
                    else st
                | None \<Rightarrow> st)
      in (case inlineData part of
            None \<Rightarrow> st
          | Some blob \<Rightarrow>
              (case data blob of
                 None \<Rightarrow> st
               | Some d \<Rightarrow>
                   if d \<noteq> []
                   then (let st = st\<lparr>audioParts := audioParts st @ [d]\<rparr>
                         in if audioMimeType st = []
                            then st\<lparr>audioMimeType :=
                                      (case mimeType blob of None \<Rightarrow> [] | Some m \<Rightarrow> m)\<rparr>
                            else st)
                   else st)))"

text \<open>\<^verbatim>\<open>message.serverContent?.modelTurn?.parts\<close> and \<^verbatim>\<open>message.serverContent?.turnComplete\<close>.\<close>

definition messageParts :: "LiveServerMessage \<Rightarrow> Part list option" where
  "messageParts message =
     (case serverContent message of
        None \<Rightarrow> None
      | Some sc \<Rightarrow> (case modelTurn sc of None \<Rightarrow> None | Some mt \<Rightarrow> parts mt))"

definition messageTurnComplete :: "LiveServerMessage \<Rightarrow> bool" where
  "messageTurnComplete message =
     (case serverContent message of None \<Rightarrow> False | Some sc \<Rightarrow> turnComplete sc = Some True)"

text \<open>One iteration of the \<^verbatim>\<open>while\<close> loop, once \<^verbatim>\<open>waitMessage\<close> has delivered a message.\<close>

definition turnStep :: "TurnState \<Rightarrow> LiveServerMessage \<Rightarrow> TurnState" where
  "turnStep st message =
     (let st = (case messageParts message of
                  None \<Rightarrow> st
                | Some ps \<Rightarrow> foldl processPart st ps)
      in if messageTurnComplete message then st\<lparr>turnCompleteVar := True\<rparr> else st)"

text \<open>The \<^verbatim>\<open>while (!turnComplete)\<close> loop over the messages the session delivers, in the
  order of \<^verbatim>\<open>responseQueue\<close>. \<^verbatim>\<open>waitMessage\<close> takes the first message of the queue and
  polls for ever when none comes: on an exhausted queue the loop does not return, which
  is the value \<open>None\<close>. The loop returns the state and the messages it left queued.\<close>

fun turnLoop :: "TurnState \<Rightarrow> LiveServerMessage list
    \<Rightarrow> (TurnState \<times> LiveServerMessage list) option" where
  "turnLoop st [] = (if turnCompleteVar st then Some (st, []) else None)"
| "turnLoop st (message # queue) =
     (if turnCompleteVar st then Some (st, message # queue)
      else turnLoop (turnStep st message) queue)"

record TurnResult =
  transcript :: string
  audio :: "u8 list option"
  audioPartsAfter :: "string list"
  queueAfter :: "LiveServerMessage list"

datatype TurnOutcome = Waiting | Threw | Finished TurnResult

definition initialTurnState :: "string list \<Rightarrow> TurnState" where
  "initialTurnState audioParts0 =
     \<lparr>audioParts = audioParts0, turnCompleteVar = False, turnText = [],
      audioMimeType = [], shown = []\<rparr>"

text \<open>\<^verbatim>\<open>handleTurn\<close>, from the value of the global \<^verbatim>\<open>audioParts\<close> when it is called and the
  messages the session delivers: \<open>Waiting\<close> when the loop never exits, \<open>Threw\<close> when
  \<^verbatim>\<open>convertToWav\<close> throws, else the text shown, the WAV handed to the audio player (if
  any), the global \<^verbatim>\<open>audioParts\<close> afterwards and the messages still queued.\<close>

definition handleTurn :: "string list \<Rightarrow> LiveServerMessage list \<Rightarrow> TurnOutcome" where
  "handleTurn audioParts0 responseQueue =
     (case turnLoop (initialTurnState audioParts0) responseQueue of
        None \<Rightarrow> Waiting
      | Some (st, queue) \<Rightarrow>
          if audioParts st \<noteq> [] \<and> audioMimeType st \<noteq> []
          then (case convertToWav (audioParts st) (audioMimeType st) of
                  None \<Rightarrow> Threw
                | Some wavData \<Rightarrow>
                    Finished \<lparr>transcript = turnText st, audio = Some wavData,
                              audioPartsAfter = [], queueAfter = queue\<rparr>)
          else Finished \<lparr>transcript = turnText st, audio = None,
                         audioPartsAfter = audioParts st, queueAfter = queue\<rparr>)"

section \<open>Definitions used to state the properties\<close>

text \<open>The byte layout of the WAV header in the words of the format: ASCII tags and
  little-endian unsigned fields, a field holding its value modulo \<open>2^16\<close> or \<open>2^32\<close>.\<close>

definition ascii :: "string \<Rightarrow> u8 list" where
  "ascii s = map (\<lambda>c. of_nat (of_char c)) s"

definition u16le :: "nat \<Rightarrow> u8 list" where
  "u16le n = [of_nat n, of_nat (n div 256)]"

definition u32le :: "nat \<Rightarrow> u8 list" where
  "u32le n = [of_nat n, of_nat (n div 256), of_nat (n div 65536), of_nat (n div 16777216)]"

text \<open>The same fields for the machine words that \<open>ToUint\<close> yields.\<close>

definition w16le :: "16 word \<Rightarrow> u8 list" where
  "w16le w = [ucast w, ucast (drop_bit 8 w)]"

definition w32le :: "32 word \<Rightarrow> u8 list" where
  "w32le w = [ucast w, ucast (drop_bit 8 w), ucast (drop_bit 16 w), ucast (drop_bit 24 w)]"

definition headerLayout :: "jsnum \<Rightarrow> WavConversionOptions \<Rightarrow> u8 list" where
  "headerLayout dataLength options =
     ascii ''RIFF'' @ w32le (ToUint (jsAdd (Num 36) dataLength)) @ ascii ''WAVE'' @
     ascii ''fmt '' @ w32le 16 @ w16le 1 @ w16le (ToUint (numChannels options)) @
     w32le (ToUint (sampleRate options)) @
     w32le (ToUint (jsDiv (jsMul (jsMul (sampleRate options) (numChannels options))
                                 (bitsPerSample options)) (Num 8))) @
     w16le (ToUint (jsDiv (jsMul (numChannels options) (bitsPerSample options)) (Num 8))) @
     w16le (ToUint (bitsPerSample options)) @ ascii ''data'' @ w32le (ToUint dataLength)"

text \<open>Reading a WAV file back: an unsigned little-endian field at a byte offset.\<close>

definition readUint16le :: "u8 list \<Rightarrow> nat \<Rightarrow> nat" where
  "readUint16le bytes off = unat (bytes ! off) + 256 * unat (bytes ! (off + 1))"

definition readUint32le :: "u8 list \<Rightarrow> nat \<Rightarrow> nat" where
  "readUint32le bytes off =
     unat (bytes ! off) + 256 * unat (bytes ! (off + 1)) +
     65536 * unat (bytes ! (off + 2)) + 16777216 * unat (bytes ! (off + 3))"

text \<open>The sextets \<^verbatim>\<open>btoa\<close> encodes, and the padding it appends.\<close>

fun sextets :: "string \<Rightarrow> nat list" where
  "sextets (a # b # c # rest) =
     (let x = (of_char a :: nat); y = (of_char b :: nat); z = (of_char c :: nat)
      in [x div 4, (x mod 4) * 16 + y div 16, (y mod 16) * 4 + z div 64, z mod 64]
         @ sextets rest)"
| "sextets [a, b] =
     (let x = (of_char a :: nat); y = (of_char b :: nat)
      in [x div 4, (x mod 4) * 16 + y div 16, (y mod 16) * 4])"
| "sextets [a] = (let x = (of_char a :: nat) in [x div 4, (x mod 4) * 16])"
| "sextets [] = []"

definition padding :: "string \<Rightarrow> string" where
  "padding s = replicate ((3 - length s mod 3) mod 3) CHR ''=''"

text \<open>What a part and a message contribute to a turn: the text of a part (empty when it
  has none), the parts of a message, the audio data of a part (empty when it carries
  none) and the MIME type of a part that carries audio data (empty when absent).\<close>

definition partTextOf :: "Part \<Rightarrow> string" where
  "partTextOf part = (case partText part of None \<Rightarrow> [] | Some t \<Rightarrow> t)"

definition partsOf :: "LiveServerMessage \<Rightarrow> Part list" where
  "partsOf message = (case messageParts message of None \<Rightarrow> [] | Some ps \<Rightarrow> ps)"

definition allParts :: "LiveServerMessage list \<Rightarrow> Part list" where
  "allParts messages = concat (map partsOf messages)"

definition partData :: "Part \<Rightarrow> string" where
  "partData part =
     (case inlineData part of
        None \<Rightarrow> []
      | Some blob \<Rightarrow> (case data blob of None \<Rightarrow> [] | Some d \<Rightarrow> d))"

definition partMime :: "Part \<Rightarrow> string" where
  "partMime part =
     (case inlineData part of
        None \<Rightarrow> []
      | Some blob \<Rightarrow>
          if partData part = [] then []
          else (case mimeType blob of None \<Rightarrow> [] | Some m \<Rightarrow> m))"

definition firstNonEmpty :: "string list \<Rightarrow> string" where
  "firstNonEmpty ss = (case filter (\<lambda>s. s \<noteq> []) ss of [] \<Rightarrow> [] | s # _ \<Rightarrow> s)"

text \<open>Messages for the concrete scenarios: a part with text, a part with audio data and
  an optional MIME type, and a message of parts that ends the turn or not.\<close>

definition textPart :: "string \<Rightarrow> Part" where
  "textPart t = \<lparr>partText = Some t, inlineData = None\<rparr>"

definition audioPart :: "string \<Rightarrow> string option \<Rightarrow> Part" where
  "audioPart d m = \<lparr>partText = None, inlineData = Some \<lparr>data = Some d, mimeType = m\<rparr>\<rparr>"

definition partsMessage :: "Part list \<Rightarrow> bool \<Rightarrow> LiveServerMessage" where
  "partsMessage ps final =
     \<lparr>serverContent = Some \<lparr>modelTurn = Some \<lparr>parts = Some ps\<rparr>,
                              turnComplete = (if final then Some True else None)\<rparr>\<rparr>"

definition turnCompleteMessage :: LiveServerMessage where
  "turnCompleteMessage = \<lparr>serverContent = Some \<lparr>modelTurn = None, turnComplete = Some True\<rparr>\<rparr>"

section \<open>Rounding to a double\<close>

lemma roundHalfEven_of_int: "roundHalfEven (of_int z) = z"
  by (simp add: roundHalfEven_def)

lemma finite_exponents: "finite (Set.filter (\<lambda>e. 2 powi e \<le> \<bar>q :: rat\<bar>) {- 1022 .. 1023 :: int})"
  by (rule finite_subset [of _ "{- 1022 .. 1023}"]) auto

lemma exponentOf_le:
  assumes "\<bar>q\<bar> < 2 powi (k + 1)" and "- 1022 \<le> k"
  shows "exponentOf q \<le> k"
proof -
  let ?S = "Set.filter (\<lambda>e. 2 powi e \<le> \<bar>q\<bar>) {- 1022 .. 1023 :: int}"
  have "e \<le> k" if "2 powi e \<le> \<bar>q\<bar>" for e :: int
  proof (rule ccontr)
    assume "\<not> e \<le> k"
    then have "k + 1 \<le> e" by simp
    then have "(2::rat) powi (k + 1) \<le> 2 powi e"
      by (intro power_int_increasing) simp_all
    with that assms(1) show False by simp
  qed
  then have "\<forall>x\<in>insert (- 1022) ?S. x \<le> k"
    using assms(2) by auto
  moreover have "finite (insert (- 1022) ?S)" "insert (- 1022) ?S \<noteq> {}"
    using finite_exponents [of q] by simp_all
  ultimately show ?thesis
    unfolding exponentOf_def by (intro Max.boundedI) blast+
qed

lemma exponentOf_eq:
  assumes "2 powi k \<le> \<bar>q\<bar>" and "\<bar>q\<bar> < 2 powi (k + 1)" and "- 1022 \<le> k" and "k \<le> 1023"
  shows "exponentOf q = k"
proof (rule antisym)
  let ?S = "Set.filter (\<lambda>e. 2 powi e \<le> \<bar>q\<bar>) {- 1022 .. 1023 :: int}"
  show "exponentOf q \<le> k"
    using assms(2,3) by (rule exponentOf_le)
  have "finite (insert (- 1022) ?S)"
    using finite_exponents [of q] by simp
  moreover have "k \<in> insert (- 1022) ?S"
    using assms(1,3,4) by simp
  ultimately show "k \<le> exponentOf q"
    unfolding exponentOf_def by (rule Max_ge)
qed

text \<open>A number with at most 53 significant bits is a double: rounding leaves it as it is.\<close>

lemma roundDouble_exact:
  assumes lt: "\<bar>q\<bar> < 2 powi (k + 1)" and lo: "- 1022 \<le> k" and hi: "k \<le> 1023"
    and q: "q = of_int m * 2 powi (k - 52)"
  shows "roundDouble q = Num q"
proof -
  define e where "e = exponentOf q"
  have ek: "e \<le> k"
    unfolding e_def using lt lo by (rule exponentOf_le)
  define z where "z = \<bar>m\<bar> * 2 ^ nat (k - e)"
  have split: "(2::rat) powi (k - 52) = 2 powi (k - e) * 2 powi (e - 52)"
    using power_int_add [of "2::rat" "k - e" "e - 52"] by simp
  have pos: "(0::rat) < 2 powi (e - 52)"
    by simp
  have "\<bar>q\<bar> = of_int \<bar>m\<bar> * 2 powi (k - 52)"
    unfolding q by (simp add: abs_mult)
  also have "\<dots> = of_int \<bar>m\<bar> * 2 powi (k - e) * 2 powi (e - 52)"
    by (simp only: split mult.assoc)
  also have "(2::rat) powi (k - e) = 2 ^ nat (k - e)"
    using ek by (simp add: power_int_def)
  also have "of_int \<bar>m\<bar> * 2 ^ nat (k - e) = rat_of_int z"
    by (simp add: z_def)
  finally have absq: "\<bar>q\<bar> = of_int z * 2 powi (e - 52)" .
  then have quot: "\<bar>q\<bar> / 2 powi (e - 52) = of_int z"
    using pos by simp
  have "rat_of_int (roundHalfEven (\<bar>q\<bar> / 2 powi (e - 52))) = of_int z"
    by (simp only: quot roundHalfEven_of_int)
  then have r: "of_int (roundHalfEven (\<bar>q\<bar> / 2 powi (e - 52))) * 2 powi (e - 52) = \<bar>q\<bar>"
    by (simp only: absq [symmetric])
  have "(2::rat) powi (k + 1) \<le> 2 powi 1024"
    using hi by (intro power_int_increasing) simp_all
  with lt have small: "\<not> 2 powi 1024 \<le> \<bar>q\<bar>"
    by simp
  show ?thesis
    unfolding roundDouble_def Let_def e_def [symmetric] r
    using small by (simp add: abs_if)
qed

lemma roundDouble_of_int:
  assumes "\<bar>n\<bar> < 9007199254740992"
  shows "roundDouble (of_int n) = Num (of_int n)"
proof (rule roundDouble_exact [where k = 52 and m = n])
  have "\<bar>rat_of_int n\<bar> = of_int \<bar>n\<bar>"
    by simp
  also have "\<dots> < of_int 9007199254740992"
    using assms by (simp only: of_int_less_iff)
  finally show "\<bar>rat_of_int n\<bar> < 2 powi (52 + 1)"
    by simp
qed simp_all

lemma roundDouble_of_int_div8:
  assumes "\<bar>n\<bar> < 9007199254740992"
  shows "roundDouble (of_int n / 8) = Num (of_int n / 8)"
proof (rule roundDouble_exact [where k = 49 and m = n])
  have "\<bar>rat_of_int n\<bar> = of_int \<bar>n\<bar>"
    by simp
  also have "\<dots> < of_int 9007199254740992"
    using assms by (simp only: of_int_less_iff)
  finally show "\<bar>rat_of_int n / 8\<bar> < 2 powi (49 + 1)"
    by simp
  have "(2::rat) powi (49 - 52) = 1 / 8"
    using power_int_minus [of "2::rat" 3] by simp
  then show "rat_of_int n / 8 = rat_of_int n * 2 powi (49 - 52)"
    by simp
qed simp_all

lemma roundDouble_of_nat:
  "n < 9007199254740992 \<Longrightarrow> roundDouble (of_nat n) = Num (of_nat n)"
  using roundDouble_of_int [of "int n"] by simp

lemma roundDouble_of_nat_div8:
  "n < 9007199254740992 \<Longrightarrow> roundDouble (of_nat n / 8) = Num (of_nat n / 8)"
  using roundDouble_of_int_div8 [of "int n"] by simp

lemma roundDouble_numeral:
  "(numeral w :: int) < 9007199254740992 \<Longrightarrow> roundDouble (numeral w) = Num (numeral w)"
  using roundDouble_of_int [of "numeral w"] by simp

lemma roundDouble_neg_numeral:
  "(numeral w :: int) < 9007199254740992 \<Longrightarrow> roundDouble (- numeral w) = Num (- numeral w)"
  using roundDouble_of_int [of "- numeral w"] by simp

lemma roundDouble_0: "roundDouble 0 = Num 0"
  using roundDouble_of_int [of 0] by simp

lemma roundDouble_1: "roundDouble 1 = Num 1"
  using roundDouble_of_int [of 1] by simp

section \<open>The WAV header: layout\<close>

lemma buffer44:
  "replicate 44 (0::u8) =
     [0,0,0,0,0,0,0,0,0,0,0,0,0,0,0,0,0,0,0,0,0,0,
      0,0,0,0,0,0,0,0,0,0,0,0,0,0,0,0,0,0,0,0,0,0]"
  by (simp add: numeral_eq_Suc)

lemma ToUint_numeral: "ToUint (Num (numeral k)) = numeral k"
  by (simp add: truncate_num_def)

lemma ToUint_one: "ToUint (Num 1) = 1"
  by (simp add: truncate_num_def)

text \<open>Every write of \<open>createWavHeader\<close> fits in the 44 bytes, and the result is the
  layout, whatever the numbers are.\<close>

lemma createWavHeader_words:
  "createWavHeader dataLength options = Some (headerLayout dataLength options)"
  unfolding createWavHeader_def buffer44 headerLayout_def
  by (simp add: Let_def setUint8_def setUint16_def setUint32_def charCodeAt_def
        ToUint_numeral ToUint_one ascii_def w16le_def w32le_def del: ToUint.simps)

lemma length_headerLayout: "length (headerLayout dataLength options) = 44"
  by (simp add: headerLayout_def ascii_def w16le_def w32le_def)

lemma truncate_num_of_nat: "truncate_num (of_nat n) = int n"
  by (simp add: truncate_num_def)

lemma truncate_num_of_nat_div8: "truncate_num (of_nat n / 8) = int (n div 8)"
proof -
  have "\<lfloor>(of_nat n / 8 :: rat)\<rfloor> = int (n div 8)"
    using floor_divide_of_nat_eq [of n 8, where ?'a = rat] by simp
  then show ?thesis by (simp add: truncate_num_def)
qed

lemma ToUint_of_nat: "(ToUint (Num (of_nat n)) :: 'w::len word) = of_nat n"
  by (simp add: truncate_num_of_nat)

lemma ToUint_of_nat_div8: "(ToUint (Num (of_nat n / 8)) :: 'w::len word) = of_nat (n div 8)"
  by (simp add: truncate_num_of_nat_div8)

lemma ucast_drop_bit_of_nat32:
  "k \<le> 24 \<Longrightarrow> (ucast (drop_bit k (of_nat n :: 32 word)) :: u8) = of_nat (n div 2 ^ k)"
  apply (rule bit_word_eqI)
  apply (auto simp add: bit_simps bit_of_nat_iff ac_simps simp flip: drop_bit_eq_div)
  done

lemma ucast_drop_bit_of_nat16:
  "k \<le> 8 \<Longrightarrow> (ucast (drop_bit k (of_nat n :: 16 word)) :: u8) = of_nat (n div 2 ^ k)"
  apply (rule bit_word_eqI)
  apply (auto simp add: bit_simps bit_of_nat_iff ac_simps simp flip: drop_bit_eq_div)
  done

lemma w32le_of_nat: "w32le (of_nat n) = u32le n"
  using ucast_drop_bit_of_nat32 [of 0 n] ucast_drop_bit_of_nat32 [of 8 n]
    ucast_drop_bit_of_nat32 [of 16 n] ucast_drop_bit_of_nat32 [of 24 n]
  by (simp add: w32le_def u32le_def)

lemma w16le_of_nat: "w16le (of_nat n) = u16le n"
  using ucast_drop_bit_of_nat16 [of 0 n] ucast_drop_bit_of_nat16 [of 8 n]
  by (simp add: w16le_def u16le_def)

text \<open>The layout for natural numbers, as long as the sums and products that the code
  computes stay below \<open>2^53\<close>, where doubles are exact.\<close>

lemma headerLayout_of_nat:
  assumes "36 + dataLength < 9007199254740992"
    and "rate * nch < 9007199254740992"
    and "rate * nch * bps < 9007199254740992"
    and "nch * bps < 9007199254740992"
  shows "headerLayout (Num (of_nat dataLength))
      \<lparr>numChannels = Num (of_nat nch), sampleRate = Num (of_nat rate),
       bitsPerSample = Num (of_nat bps)\<rparr>
   = ascii ''RIFF'' @ u32le (36 + dataLength) @ ascii ''WAVE'' @ ascii ''fmt '' @
     u32le 16 @ u16le 1 @ u16le nch @ u32le rate @ u32le (rate * nch * bps div 8) @
     u16le (nch * bps div 8) @ u16le bps @ ascii ''data'' @ u32le dataLength"
proof -
  have "jsAdd (Num 36) (Num (of_nat dataLength)) = Num (of_nat (36 + dataLength))"
    using roundDouble_of_nat [OF assms(1)] by simp
  then have a36: "(ToUint (jsAdd (Num 36) (Num (of_nat dataLength))) :: 32 word)
             = of_nat (36 + dataLength)"
    by (simp only: ToUint_of_nat)
  have p1: "jsMul (Num (of_nat rate)) (Num (of_nat nch)) = Num (of_nat (rate * nch))"
    using roundDouble_of_nat [OF assms(2)] by simp
  have p2: "jsMul (Num (of_nat (rate * nch))) (Num (of_nat bps))
            = Num (of_nat (rate * nch * bps))"
    using roundDouble_of_nat [OF assms(3)] by simp
  have p3: "jsDiv (Num (of_nat (rate * nch * bps))) (Num 8)
            = Num (of_nat (rate * nch * bps) / 8)"
    using roundDouble_of_nat_div8 [OF assms(3)] by simp
  have byteRate: "(ToUint (jsDiv (jsMul (jsMul (Num (of_nat rate)) (Num (of_nat nch)))
                     (Num (of_nat bps))) (Num 8)) :: 32 word) = of_nat (rate * nch * bps div 8)"
    by (simp only: p1 p2 p3 ToUint_of_nat_div8)
  have q1: "jsMul (Num (of_nat nch)) (Num (of_nat bps)) = Num (of_nat (nch * bps))"
    using roundDouble_of_nat [OF assms(4)] by simp
  have q2: "jsDiv (Num (of_nat (nch * bps))) (Num 8) = Num (of_nat (nch * bps) / 8)"
    using roundDouble_of_nat_div8 [OF assms(4)] by simp
  have blockAlign: "(ToUint (jsDiv (jsMul (Num (of_nat nch)) (Num (of_nat bps))) (Num 8))
                     :: 16 word) = of_nat (nch * bps div 8)"
    by (simp only: q1 q2 ToUint_of_nat_div8)
  have k16: "w32le 16 = u32le 16"
    using w32le_of_nat [of 16] by simp
  have k1: "w16le 1 = u16le 1"
    using w16le_of_nat [of 1] by simp
  show ?thesis
    unfolding headerLayout_def WavConversionOptions.simps a36 byteRate blockAlign
      ToUint_of_nat w32le_of_nat w16le_of_nat k16 k1 ..
qed

section \<open>Concatenation and the byte loops\<close>

lemma foldl_add_length:
  "foldl (\<lambda>acc val. acc + length val) k arrays = k + length (concat arrays)"
  by (induction arrays arbitrary: k) simp_all

lemma concatLoop_concat:
  "length result = offset + length (concat arrays) \<Longrightarrow>
   concatLoop arrays offset result = Some (take offset result @ concat arrays)"
proof (induction arrays arbitrary: offset result)
  case Nil
  then show ?case by simp
next
  case (Cons arr arrays)
  let ?r = "take offset result @ arr @ drop (offset + length arr) result"
  have fits: "typedArraySet result arr offset = Some ?r"
    using Cons.prems by (simp add: typedArraySet_def)
  have len: "length ?r = (offset + length arr) + length (concat arrays)"
    using Cons.prems by simp
  have tk: "take (offset + length arr) ?r = take offset result @ arr"
    using Cons.prems by simp
  show ?case
    using Cons.IH [OF len] fits tk by simp
qed

lemma concatUint8Arrays_concat: "concatUint8Arrays arrays = Some (concat arrays)"
  using concatLoop_concat [of "replicate (length (concat arrays)) 0" 0 arrays]
  by (simp add: concatUint8Arrays_def foldl_add_length)

lemma binaryLoop_map:
  "i \<le> length bytes \<Longrightarrow> binaryLoop bytes i binary = binary @ map fromCharCode (drop i bytes)"
proof (induction bytes i binary rule: binaryLoop.induct)
  case (1 bytes i binary)
  show ?case
  proof (cases "i < length bytes")
    case True
    then have "drop i bytes = bytes ! i # drop (Suc i) bytes"
      by (simp add: Cons_nth_drop_Suc)
    with True "1.IH" show ?thesis
      by (simp del: binaryLoop.simps add: binaryLoop.simps [of bytes i])
  next
    case False
    with "1.prems" show ?thesis by simp
  qed
qed

lemma ToUint_charCodeAt:
  "i < length s \<Longrightarrow> (ToUint (charCodeAt s i) :: u8) = of_nat (of_char (s ! i))"
  by (simp add: charCodeAt_def truncate_num_def)

lemma bytesLoop_map:
  "i \<le> length s \<Longrightarrow> length bytes = length s \<Longrightarrow>
   bytesLoop s i bytes = take i bytes @ map (\<lambda>c. of_nat (of_char c)) (drop i s)"
proof (induction s i bytes rule: bytesLoop.induct)
  case (1 s i bytes)
  show ?case
  proof (cases "i < length s")
    case True
    have d: "drop i s = s ! i # drop (Suc i) s"
      using True by (simp add: Cons_nth_drop_Suc)
    have t: "take (Suc i) (bytes[i := of_nat (of_char (s ! i))])
             = take i bytes @ [of_nat (of_char (s ! i))]"
      using True "1.prems" by (simp add: take_Suc_conv_app_nth)
    from True "1.IH" "1.prems" d t show ?thesis
      by (simp del: bytesLoop.simps add: bytesLoop.simps [of s i] ToUint_charCodeAt)
  next
    case False
    with "1.prems" show ?thesis by simp
  qed
qed

lemma arrayBufferToBase64_eq: "arrayBufferToBase64 buffer = btoa (map fromCharCode buffer)"
  by (simp add: arrayBufferToBase64_def binaryLoop_map del: binaryLoop.simps)

lemma base64ToUint8Array_eq: "base64ToUint8Array base64 = map_option ascii (atob base64)"
  by (simp add: base64ToUint8Array_def bytesLoop_map ascii_def del: bytesLoop.simps
      split: option.split)

lemma those_map_Some: "those (map Some xs) = Some xs"
  by (induction xs) simp_all

lemma convertToWav_decoded:
  "map base64ToUint8Array rawData = map Some chunks \<Longrightarrow>
   convertToWav rawData mime
   = Some (headerLayout (Num (of_nat (length (concat chunks)))) (parseMimeType mime)
           @ concat chunks)"
  by (simp add: convertToWav_def those_map_Some concatUint8Arrays_concat createWavHeader_words)

section \<open>Base64 round trip\<close>

lemma length_b64alphabet: "length b64alphabet = 64"
  by (simp add: b64alphabet_def)

lemma distinct_b64alphabet: "distinct b64alphabet"
  by (simp add: b64alphabet_def)

lemma b64alphabet_plain: "c \<in> set b64alphabet \<Longrightarrow> c \<noteq> CHR ''='' \<and> \<not> isAsciiWhitespace c"
  by (auto simp add: b64alphabet_def isAsciiWhitespace_def)

lemma indexOf_nth:
  "distinct xs \<Longrightarrow> n < length xs \<Longrightarrow> indexOf (xs ! n) xs = Some n"
proof (induction xs arbitrary: n)
  case Nil
  then show ?case by simp
next
  case (Cons x xs)
  show ?case
  proof (cases n)
    case 0
    then show ?thesis by simp
  next
    case (Suc k)
    with Cons.prems have "k < length xs" and "xs ! k \<noteq> x" and "distinct xs"
      by auto
    with Cons.IH [of k] Suc show ?thesis by simp
  qed
qed

lemma b64index_b64char: "n < 64 \<Longrightarrow> b64index (b64char n) = Some n"
  by (simp add: b64index_def b64char_def indexOf_nth distinct_b64alphabet length_b64alphabet)

lemma b64char_in_alphabet: "n < 64 \<Longrightarrow> b64char n \<in> set b64alphabet"
  by (simp add: b64char_def length_b64alphabet)

lemma btoa_sextets: "btoa s = map b64char (sextets s) @ padding s"
  by (induction s rule: btoa.induct) (simp_all add: padding_def Let_def numeral_2_eq_2)

lemma sextet_bounds:
  fixes x y :: nat
  shows "x < 256 \<Longrightarrow> x div 4 < 64"
    and "y < 256 \<Longrightarrow> (x mod 4) * 16 + y div 16 < 64"
    and "y < 256 \<Longrightarrow> (x mod 16) * 4 + y div 64 < 64"
    and "x mod 64 < 64" and "(x mod 4) * 16 < 64" and "(x mod 16) * 4 < 64"
  by arith+

lemma sextets_lt_64: "n \<in> set (sextets s) \<Longrightarrow> n < 64"
proof (induction s arbitrary: n rule: sextets.induct)
  case (1 a b c rest)
  have lt: "(of_char a :: nat) < 256" "(of_char b :: nat) < 256" "(of_char c :: nat) < 256"
    by simp_all
  from "1.prems" consider "n = of_char a div 4"
    | "n = (of_char a mod 4) * 16 + of_char b div 16"
    | "n = (of_char b mod 16) * 4 + of_char c div 64"
    | "n = of_char c mod 64"
    | "n \<in> set (sextets rest)"
    by (auto simp add: Let_def)
  then show ?case
  proof cases
    case 5
    then show ?thesis using "1.IH" by simp
  qed (use lt sextet_bounds in simp_all)
next
  case (2 a b)
  have lt: "(of_char a :: nat) < 256" "(of_char b :: nat) < 256"
    by simp_all
  from "2.prems" consider "n = of_char a div 4"
    | "n = (of_char a mod 4) * 16 + of_char b div 16"
    | "n = (of_char b mod 16) * 4"
    by (auto simp add: Let_def)
  then show ?case
    by cases (use lt sextet_bounds in simp_all)
next
  case (3 a)
  have lt: "(of_char a :: nat) < 256"
    by simp
  from "3.prems" consider "n = of_char a div 4" | "n = (of_char a mod 4) * 16"
    by (auto simp add: Let_def)
  then show ?case
    by cases (use lt sextet_bounds in simp_all)
next
  case 4
  then show ?case by simp
qed

lemma length_sextets_mod_4: "length (sextets s) mod 4 \<noteq> 1"
  by (induction s rule: sextets.induct) (simp_all add: Let_def)

lemma length_btoa_mod_4: "length (btoa s) mod 4 = 0"
  by (induction s rule: btoa.induct) (simp_all add: Let_def)

text \<open>Three bytes come back from the four sextets they were split into.\<close>

lemma group3:
  fixes x y z :: nat
  assumes "x < 256" "y < 256" "z < 256"
  shows "(x div 4 * 4 + ((x mod 4) * 16 + y div 16) div 16) mod 256 = x"
    and "((((x mod 4) * 16 + y div 16) mod 16) * 16 + ((y mod 16) * 4 + z div 64) div 4) mod 256 = y"
    and "((((y mod 16) * 4 + z div 64) mod 4) * 64 + z mod 64) mod 256 = z"
proof -
  have y16: "y div 16 < 16" and z64: "z div 64 < 4"
    using assms by arith+
  have a: "((x mod 4) * 16 + y div 16) div 16 = x mod 4"
    using y16 by simp
  have b: "((x mod 4) * 16 + y div 16) mod 16 = y div 16"
    using y16 by simp
  have c: "((y mod 16) * 4 + z div 64) div 4 = y mod 16"
    using z64 by simp
  have d: "((y mod 16) * 4 + z div 64) mod 4 = z div 64"
    using z64 by simp
  show "(x div 4 * 4 + ((x mod 4) * 16 + y div 16) div 16) mod 256 = x"
    using assms(1) by (simp add: a)
  show "((((x mod 4) * 16 + y div 16) mod 16) * 16 + ((y mod 16) * 4 + z div 64) div 4) mod 256 = y"
    using assms(2) by (simp add: b c)
  show "((((y mod 16) * 4 + z div 64) mod 4) * 64 + z mod 64) mod 256 = z"
    using assms(3) by (simp add: d)
qed

lemma char_of_eq_of_char: "n mod 256 = (of_char c :: nat) \<Longrightarrow> char_of n = c"
  by (simp add: char_of_eq_iff take_bit_eq_mod)

lemma b64bytes_sextets: "b64bytes (sextets s) = s"
proof (induction s rule: sextets.induct)
  case (1 a b c rest)
  have lt: "(of_char a :: nat) < 256" "(of_char b :: nat) < 256" "(of_char c :: nat) < 256"
    by simp_all
  show ?case
    using 1 group3 [OF lt] by (simp add: Let_def char_of_eq_of_char)
next
  case (2 a b)
  have lt: "(of_char a :: nat) < 256" "(of_char b :: nat) < 256" "(0::nat) < 256"
    by simp_all
  show ?case
    using group3 (1,2) [OF lt] by (simp add: Let_def char_of_eq_of_char)
next
  case (3 a)
  have lt: "(of_char a :: nat) < 256" "(0::nat) < 256" "(0::nat) < 256"
    by simp_all
  show ?case
    using group3 (1) [OF lt] by (simp add: Let_def char_of_eq_of_char)
next
  case 4
  show ?case by simp
qed

lemma stripPadding_body:
  assumes "\<And>c. c \<in> set body \<Longrightarrow> c \<noteq> CHR ''=''" and "k \<le> 2"
  shows "stripPadding (body @ replicate k CHR ''='') = body"
proof -
  have nl: "body \<noteq> [] \<Longrightarrow> last body \<noteq> CHR ''=''"
    using assms(1) last_in_set by blast
  from assms(2) consider "k = 0" | "k = 1" | "k = 2"
    by linarith
  then show ?thesis
  proof cases
    case 1
    then show ?thesis using nl by (cases "body = []") (simp_all add: stripPadding_def)
  next
    case 2
    then show ?thesis using nl by (cases "body = []") (simp_all add: stripPadding_def butlast_append)
  next
    case 3
    then have "replicate k CHR ''='' = [CHR ''='', CHR ''='']"
      by (simp add: numeral_2_eq_2)
    then show ?thesis by (simp add: stripPadding_def butlast_append)
  qed
qed

lemma those_map_index:
  "(\<And>x. x \<in> set xs \<Longrightarrow> f (g x) = Some x) \<Longrightarrow> those (map f (map g xs)) = Some xs"
  by (induction xs) simp_all

lemma atob_btoa: "atob (btoa s) = Some s"
proof -
  let ?body = "map b64char (sextets s)"
  have plain: "\<And>c. c \<in> set ?body \<Longrightarrow> c \<noteq> CHR ''='' \<and> \<not> isAsciiWhitespace c"
    using b64alphabet_plain b64char_in_alphabet sextets_lt_64 by auto
  have eqw: "\<not> isAsciiWhitespace CHR ''=''"
    by (simp add: isAsciiWhitespace_def)
  have nows: "filter (\<lambda>c. \<not> isAsciiWhitespace c) (btoa s) = btoa s"
    using plain eqw by (auto simp add: btoa_sextets padding_def filter_id_conv)
  have strip: "stripPadding (btoa s) = ?body"
    unfolding btoa_sextets padding_def
    using plain by (intro stripPadding_body) auto
  have idx: "those (map b64index ?body) = Some (sextets s)"
    by (rule those_map_index) (simp add: b64index_b64char sextets_lt_64)
  show ?thesis
    using nows strip idx length_btoa_mod_4 [of s] length_sextets_mod_4 [of s]
    by (simp add: atob_def Let_def b64bytes_sextets)
qed

lemma byte_fromCharCode: "(of_nat (of_char (fromCharCode b)) :: u8) = b"
proof -
  have "unat b < 256"
    using unsigned_less [of b, where ?'a = nat] by simp
  then have "unat b mod 256 = unat b"
    by simp
  then show ?thesis
    by (simp add: fromCharCode_def)
qed

lemma ascii_fromCharCode: "ascii (map fromCharCode bytes) = bytes"
  by (induction bytes) (simp_all add: ascii_def byte_fromCharCode)

text \<open>
  Claim C10. For every byte buffer \<open>b\<close>, \<^verbatim>\<open>base64ToUint8Array(arrayBufferToBase64(b))\<close>
  returns the bytes of \<open>b\<close>: the decoder never throws on the encoder's output, and audio
  bytes survive the transport encoding unchanged.
\<close>

theorem base64_round_trip: "base64ToUint8Array (arrayBufferToBase64 b) = Some b"
  by (simp add: base64ToUint8Array_eq arrayBufferToBase64_eq atob_btoa ascii_fromCharCode)

section \<open>Concrete inputs\<close>

lemmas parse_defs = parseMimeType_def formatPartOf_def trim_def isWhiteSpace_def rateParam_def
  startsWith_def parseInt10_def isDigit_def digitsValue_def isNaN_def Let_def
  roundDouble_numeral roundDouble_neg_numeral roundDouble_0 roundDouble_1

lemmas atob_defs = atob_def stripPadding_def isAsciiWhitespace_def b64index_def b64alphabet_def
  Let_def

lemma parseMimeType_L16_16000:
  "parseMimeType ''audio/L16;rate=16000''
   = \<lparr>numChannels = Num 1, sampleRate = Num 16000, bitsPerSample = Num 16\<rparr>"
  by (simp add: parse_defs)

lemma parseMimeType_L65536:
  "parseMimeType ''audio/L65536''
   = \<lparr>numChannels = Num 1, sampleRate = Num 24000, bitsPerSample = Num 65536\<rparr>"
  by (simp add: parse_defs)

lemma atob_QUI: "atob ''QUI='' = Some ''AB''"
  by (simp add: atob_defs char_of_eq_of_char)

lemma atob_Q0Q: "atob ''Q0Q='' = Some ''CD''"
  by (simp add: atob_defs char_of_eq_of_char)

lemma decode_QUI: "base64ToUint8Array ''QUI='' = Some (ascii ''AB'')"
  by (simp add: base64ToUint8Array_eq atob_QUI)

lemma decode_Q0Q: "base64ToUint8Array ''Q0Q='' = Some (ascii ''CD'')"
  by (simp add: base64ToUint8Array_eq atob_Q0Q)

section \<open>The WAV file\<close>

text \<open>
  Claim C1. For every sequence of transport chunks \<open>rawData\<close> that decode to the byte
  sequences \<open>chunks\<close>, and every MIME type string, \<^verbatim>\<open>convertToWav\<close> returns exactly the
  header that \<^verbatim>\<open>createWavHeader\<close> builds from the parsed MIME type and the total decoded
  length, which is 44 bytes long, followed immediately by the chunks concatenated in the
  order given; the length of the result is 44 plus the sum of the chunk lengths. (The
  sequence need not be non-empty.)
\<close>

theorem convertToWav_header_then_chunks:
  assumes "map base64ToUint8Array rawData = map Some chunks"
  shows "\<exists>header.
           createWavHeader (Num (of_nat (length (concat chunks)))) (parseMimeType mime)
             = Some header
         \<and> length header = 44
         \<and> convertToWav rawData mime = Some (header @ concat chunks)
         \<and> length (header @ concat chunks) = 44 + sum_list (map length chunks)"
proof -
  let ?header = "headerLayout (Num (of_nat (length (concat chunks)))) (parseMimeType mime)"
  have "createWavHeader (Num (of_nat (length (concat chunks)))) (parseMimeType mime)
        = Some ?header"
    by (rule createWavHeader_words)
  moreover have "length ?header = 44"
    by (rule length_headerLayout)
  moreover have "convertToWav rawData mime = Some (?header @ concat chunks)"
    using assms by (rule convertToWav_decoded)
  moreover have "length (?header @ concat chunks) = 44 + sum_list (map length chunks)"
    by (simp add: length_headerLayout length_concat)
  ultimately show ?thesis by blast
qed

theorem convertToWav_header_then_chunks_witness:
  "map base64ToUint8Array [''QUI='', ''Q0Q=''] = map Some [ascii ''AB'', ascii ''CD'']
   \<and> (\<exists>header.
         createWavHeader (Num (of_nat (length (concat [ascii ''AB'', ascii ''CD'']))))
             (parseMimeType ''audio/L16;rate=16000'') = Some header
       \<and> length header = 44
       \<and> convertToWav [''QUI='', ''Q0Q=''] ''audio/L16;rate=16000''
           = Some (header @ concat [ascii ''AB'', ascii ''CD''])
       \<and> length (header @ concat [ascii ''AB'', ascii ''CD''])
           = 44 + sum_list (map length [ascii ''AB'', ascii ''CD'']))"
proof -
  have h: "map base64ToUint8Array [''QUI='', ''Q0Q='']
           = map Some [ascii ''AB'', ascii ''CD'']"
    by (simp add: decode_QUI decode_Q0Q)
  show ?thesis
    by (rule conjI [OF h convertToWav_header_then_chunks [OF h]])
qed

lemma convertToWav_scenario2:
  "convertToWav [''QUI=''] ''audio/L16;rate=16000''
       = Some (ascii ''RIFF'' @ u32le 38 @ ascii ''WAVE'' @ ascii ''fmt '' @
               u32le 16 @ u16le 1 @ u16le 1 @ u32le 16000 @ u32le 32000 @
               u16le 2 @ u16le 16 @ ascii ''data'' @ u32le 2 @ ascii ''AB'')"
proof -
  have hdr: "headerLayout (Num 2)
               \<lparr>numChannels = Num 1, sampleRate = Num 16000, bitsPerSample = Num 16\<rparr>
             = ascii ''RIFF'' @ u32le 38 @ ascii ''WAVE'' @ ascii ''fmt '' @
               u32le 16 @ u16le 1 @ u16le 1 @ u32le 16000 @ u32le 32000 @
               u16le 2 @ u16le 16 @ ascii ''data'' @ u32le 2"
    using headerLayout_of_nat [where dataLength = 2 and nch = 1 and rate = 16000 and bps = 16] by simp
  have dec: "map base64ToUint8Array [''QUI=''] = map Some [ascii ''AB'']"
    by (simp add: decode_QUI)
  have c: "concat [ascii ''AB''] = ascii ''AB''"
    by simp
  have l: "rat_of_nat (length (ascii ''AB'')) = 2"
    by (simp add: ascii_def)
  show ?thesis
    using convertToWav_decoded [OF dec, of "''audio/L16;rate=16000''"]
    unfolding c l parseMimeType_L16_16000 hdr by (simp only: append_assoc)
qed

text \<open>
  Claim C2, as amended. For every data length and every descriptor of natural numbers
  below \<open>2^53\<close> for which \<open>36 + dataLength\<close> and the products \<open>rate * channels\<close>,
  \<open>rate * channels * bits\<close> and \<open>channels * bits\<close> are below \<open>2^53\<close> as well, so that the
  doubles of the code are exact, the header of \<^verbatim>\<open>createWavHeader\<close> is, in this order:
  \<open>RIFF\<close> (bytes 0-3), \<open>36 + dataLength\<close> as a little-endian uint32 (4-7), \<open>WAVE\<close> (8-11),
  \<open>fmt \<close> (12-15), uint32 16 (16-19), uint16 1 (20-21), uint16 channels (22-23), uint32
  sample rate (24-27), uint32 byte rate \<open>rate * channels * bits div 8\<close> (28-31), uint16
  block align \<open>channels * bits div 8\<close> (32-33), uint16 bits per sample (34-35), \<open>data\<close>
  (36-39), uint32 \<open>dataLength\<close> (40-43). A field holds its value modulo \<open>2^16\<close> or
  \<open>2^32\<close>, as \<open>u16le\<close> and \<open>u32le\<close> say. In particular the MIME type
  \<open>audio/L16;rate=16000\<close> parses to sample rate 16000, 16 bits and 1 channel, and with
  the two data bytes \<open>AB\<close> the WAV file has data length 2 and is 46 bytes long. (As
  stated for every descriptor the claim fails: in the counterexample below the product
  is above \<open>2^53\<close>, the code rounds it, and bytes 28-31 are 0, 64, 0, 0 where the exact
  byte rate would give 255, 63, 0, 0.)
\<close>

theorem createWavHeader_layout:
  assumes "36 + dataLength < 9007199254740992"
    and "nch < 9007199254740992" and "rate < 9007199254740992" and "bps < 9007199254740992"
    and "rate * nch < 9007199254740992"
    and "rate * nch * bps < 9007199254740992"
    and "nch * bps < 9007199254740992"
  shows "createWavHeader (Num (of_nat dataLength))
      \<lparr>numChannels = Num (of_nat nch), sampleRate = Num (of_nat rate),
       bitsPerSample = Num (of_nat bps)\<rparr>
   = Some (ascii ''RIFF'' @ u32le (36 + dataLength) @ ascii ''WAVE'' @ ascii ''fmt '' @
           u32le 16 @ u16le 1 @ u16le nch @ u32le rate @ u32le (rate * nch * bps div 8) @
           u16le (nch * bps div 8) @ u16le bps @ ascii ''data'' @ u32le dataLength)
   \<and> parseMimeType ''audio/L16;rate=16000''
       = \<lparr>numChannels = Num 1, sampleRate = Num 16000, bitsPerSample = Num 16\<rparr>
   \<and> convertToWav [''QUI=''] ''audio/L16;rate=16000''
       = Some (ascii ''RIFF'' @ u32le 38 @ ascii ''WAVE'' @ ascii ''fmt '' @
               u32le 16 @ u16le 1 @ u16le 1 @ u32le 16000 @ u32le 32000 @
               u16le 2 @ u16le 16 @ ascii ''data'' @ u32le 2 @ ascii ''AB'')
   \<and> map_option length (convertToWav [''QUI=''] ''audio/L16;rate=16000'') = Some 46"
proof -
  have general: "createWavHeader (Num (of_nat dataLength))
      \<lparr>numChannels = Num (of_nat nch), sampleRate = Num (of_nat rate),
       bitsPerSample = Num (of_nat bps)\<rparr>
   = Some (ascii ''RIFF'' @ u32le (36 + dataLength) @ ascii ''WAVE'' @ ascii ''fmt '' @
           u32le 16 @ u16le 1 @ u16le nch @ u32le rate @ u32le (rate * nch * bps div 8) @
           u16le (nch * bps div 8) @ u16le bps @ ascii ''data'' @ u32le dataLength)"
    by (simp only: createWavHeader_words
        headerLayout_of_nat [OF assms(1) assms(5) assms(6) assms(7)])
  have len: "map_option length (convertToWav [''QUI=''] ''audio/L16;rate=16000'') = Some 46"
    unfolding convertToWav_scenario2 by (simp add: ascii_def u16le_def u32le_def)
  show ?thesis
    using general parseMimeType_L16_16000 convertToWav_scenario2 len by (intro conjI)
qed

theorem createWavHeader_layout_witness:
  "36 + (2::nat) < 9007199254740992
   \<and> (1::nat) < 9007199254740992 \<and> (16000::nat) < 9007199254740992
   \<and> (16::nat) < 9007199254740992
   \<and> (16000::nat) * 1 < 9007199254740992
   \<and> (16000::nat) * 1 * 16 < 9007199254740992
   \<and> (1::nat) * 16 < 9007199254740992
   \<and> createWavHeader (Num (of_nat 2))
      \<lparr>numChannels = Num (of_nat 1), sampleRate = Num (of_nat 16000),
       bitsPerSample = Num (of_nat 16)\<rparr>
   = Some (ascii ''RIFF'' @ u32le (36 + 2) @ ascii ''WAVE'' @ ascii ''fmt '' @
           u32le 16 @ u16le 1 @ u16le 1 @ u32le 16000 @ u32le (16000 * 1 * 16 div 8) @
           u16le (1 * 16 div 8) @ u16le 16 @ ascii ''data'' @ u32le 2)
   \<and> parseMimeType ''audio/L16;rate=16000''
       = \<lparr>numChannels = Num 1, sampleRate = Num 16000, bitsPerSample = Num 16\<rparr>
   \<and> convertToWav [''QUI=''] ''audio/L16;rate=16000''
       = Some (ascii ''RIFF'' @ u32le 38 @ ascii ''WAVE'' @ ascii ''fmt '' @
               u32le 16 @ u16le 1 @ u16le 1 @ u32le 16000 @ u32le 32000 @
               u16le 2 @ u16le 16 @ ascii ''data'' @ u32le 2 @ ascii ''AB'')
   \<and> map_option length (convertToWav [''QUI=''] ''audio/L16;rate=16000'') = Some 46"
proof -
  have h1: "36 + (2::nat) < 9007199254740992"
    and h2: "(1::nat) < 9007199254740992"
    and h3: "(16000::nat) < 9007199254740992"
    and h4: "(16::nat) < 9007199254740992"
    and h5: "(16000::nat) * 1 < 9007199254740992"
    and h6: "(16000::nat) * 1 * 16 < 9007199254740992"
    and h7: "(1::nat) * 16 < 9007199254740992"
    by simp_all
  show ?thesis
    by (rule conjI [OF h1 conjI [OF h2 conjI [OF h3 conjI [OF h4 conjI [OF h5
          conjI [OF h6 conjI [OF h7 createWavHeader_layout [OF h1 h2 h3 h4 h5 h6 h7]]]]]]]])
qed

text \<open>The descriptor of the counterexample fits the fields of the header, but the
  product \<open>4294967295 * 65535 * 65535\<close> is above \<open>2^53\<close> and the code's double rounds it
  up to the next multiple of 2048.\<close>

lemma exponentOf_product: "exponentOf 18446181123756261375 = 63"
  by (rule exponentOf_eq) simp_all

lemma roundHalfEven_product:
  "roundHalfEven (18446181123756261375 / 2048) = 9006924376834112"
proof -
  have "\<lfloor>(18446181123756261375 / 2048 :: rat)\<rfloor> = 9006924376834111"
    using floor_divide_of_int_eq [of 18446181123756261375 2048, where ?'a = rat] by simp
  then show ?thesis
    by (simp add: roundHalfEven_def Let_def)
qed

lemma roundDouble_product: "roundDouble 18446181123756261375 = Num 18446181123756261376"
  by (simp add: roundDouble_def exponentOf_product roundHalfEven_product Let_def)

lemma roundDouble_product_div8: "roundDouble 2305772640469532672 = Num 2305772640469532672"
  by (rule roundDouble_exact [where k = 60 and m = 9006924376834112]) simp_all

lemma byteRate_rounded:
  "jsDiv (jsMul (jsMul (Num 4294967295) (Num 65535)) (Num 65535)) (Num 8)
   = Num 2305772640469532672"
  by (simp add: roundDouble_numeral roundDouble_product roundDouble_product_div8)

lemma blockAlign_65535:
  "jsDiv (jsMul (Num 65535) (Num 65535)) (Num 8) = Num (4294836225 / 8)"
  using roundDouble_of_nat_div8 [of 4294836225] by (simp add: roundDouble_numeral)

theorem createWavHeader_layout_counterexample:
  "createWavHeader (Num 2)
      \<lparr>numChannels = Num 65535, sampleRate = Num 4294967295, bitsPerSample = Num 65535\<rparr>
   = Some (ascii ''RIFF'' @ u32le 38 @ ascii ''WAVE'' @ ascii ''fmt '' @
           u32le 16 @ u16le 1 @ u16le 65535 @ u32le 4294967295 @ [0, 64, 0, 0] @
           u16le (65535 * 65535 div 8) @ u16le 65535 @ ascii ''data'' @ u32le 2)
   \<and> u32le (4294967295 * 65535 * 65535 div 8) = [255, 63, 0, 0]"
proof -
  have a: "(ToUint (jsAdd (Num 36) (Num 2)) :: 32 word) = 38"
    by (simp add: roundDouble_numeral ToUint_numeral del: ToUint.simps)
  have x: "w32le (ToUint (Num 2305772640469532672)) = [0, 64, 0, 0]"
    by (simp add: ToUint_numeral w32le_def del: ToUint.simps)
  have y: "(ToUint (Num (4294836225 / 8)) :: 16 word) = of_nat (65535 * 65535 div 8)"
    using ToUint_of_nat_div8 [of 4294836225, where ?'w = 16] by simp
  have hdr: "headerLayout (Num 2)
      \<lparr>numChannels = Num 65535, sampleRate = Num 4294967295, bitsPerSample = Num 65535\<rparr>
     = ascii ''RIFF'' @ u32le 38 @ ascii ''WAVE'' @ ascii ''fmt '' @
       u32le 16 @ u16le 1 @ u16le 65535 @ u32le 4294967295 @ [0, 64, 0, 0] @
       u16le (65535 * 65535 div 8) @ u16le 65535 @ ascii ''data'' @ u32le 2"
    unfolding headerLayout_def WavConversionOptions.simps byteRate_rounded blockAlign_65535
      a x y
    by (simp add: ToUint_numeral w32le_def w16le_def u32le_def u16le_def del: ToUint.simps)
  have claimed: "u32le (4294967295 * 65535 * 65535 div 8) = [255, 63, 0, 0]"
    by (simp add: u32le_def)
  show ?thesis
    using hdr claimed by (simp only: createWavHeader_words simp_thms)
qed

section \<open>Reading the header back\<close>

lemma read16_u16le:
  "n < 65536 \<Longrightarrow> unat (of_nat n :: u8) + 256 * unat (of_nat (n div 256) :: u8) = n"
  by (simp add: unat_of_nat)

lemma read32_u32le:
  assumes "n < 4294967296"
  shows "unat (of_nat n :: u8) + 256 * unat (of_nat (n div 256) :: u8)
         + 65536 * unat (of_nat (n div 65536) :: u8)
         + 16777216 * unat (of_nat (n div 16777216) :: u8) = n"
proof -
  have "n div 16777216 < 256"
    using assms by arith
  then have top: "n div 16777216 mod 256 = n div 16777216"
    by simp
  have a: "n = n mod 256 + 256 * (n div 256)"
    by simp
  have d1: "n div 256 div 256 = n div 65536"
    by (simp add: div_mult2_eq [symmetric])
  have d2: "n div 65536 div 256 = n div 16777216"
    by (simp add: div_mult2_eq [symmetric])
  have b: "n div 256 = n div 256 mod 256 + 256 * (n div 65536)"
    unfolding d1 [symmetric] by simp
  have c: "n div 65536 = n div 65536 mod 256 + 256 * (n div 16777216)"
    unfolding d2 [symmetric] by simp
  have "n mod 256 + 256 * (n div 256 mod 256) + 65536 * (n div 65536 mod 256)
        + 16777216 * (n div 16777216) = n"
    using a b c by linarith
  then show ?thesis
    using top by (simp add: unat_of_nat)
qed

lemma readUint16le_at:
  "length pre = off \<Longrightarrow> n < 65536 \<Longrightarrow> readUint16le (pre @ u16le n @ post) off = n"
  by (simp add: readUint16le_def u16le_def nth_append read16_u16le)

lemma readUint32le_at:
  "length pre = off \<Longrightarrow> n < 4294967296 \<Longrightarrow> readUint32le (pre @ u32le n @ post) off = n"
  using read32_u32le [of n]
  by (simp add: readUint32le_def u32le_def nth_append)

text \<open>The four fields that a reader needs, whatever the other fields hold.\<close>

lemma layout_fields:
  fixes a b x :: "32 word" and c y :: "16 word" and payload :: "u8 list"
  assumes "nch < 65536" "rate < 4294967296" "bps < 65536" "len < 4294967296"
  defines "wav \<equiv> ascii ''RIFF'' @ w32le a @ ascii ''WAVE'' @ ascii ''fmt '' @
     w32le b @ w16le c @ u16le nch @ u32le rate @ w32le x @
     w16le y @ u16le bps @ ascii ''data'' @ u32le len @ payload"
  shows "readUint16le wav 22 = nch" "readUint32le wav 24 = rate"
    "readUint16le wav 34 = bps" "readUint32le wav 40 = len"
proof -
  show "readUint16le wav 22 = nch"
    using readUint16le_at [of "ascii ''RIFF'' @ w32le a @ ascii ''WAVE'' @
        ascii ''fmt '' @ w32le b @ w16le c" 22 nch] assms(1)
    by (simp add: wav_def ascii_def w32le_def w16le_def)
  show "readUint32le wav 24 = rate"
    using readUint32le_at [of "ascii ''RIFF'' @ w32le a @ ascii ''WAVE'' @
        ascii ''fmt '' @ w32le b @ w16le c @ u16le nch" 24 rate] assms(2)
    by (simp add: wav_def ascii_def w32le_def w16le_def u16le_def)
  show "readUint16le wav 34 = bps"
    using readUint16le_at [of "ascii ''RIFF'' @ w32le a @ ascii ''WAVE'' @
        ascii ''fmt '' @ w32le b @ w16le c @ u16le nch @ u32le rate @
        w32le x @ w16le y" 34 bps] assms(3)
    by (simp add: wav_def ascii_def w32le_def w16le_def u32le_def u16le_def)
  show "readUint32le wav 40 = len"
    using readUint32le_at [of "ascii ''RIFF'' @ w32le a @ ascii ''WAVE'' @
        ascii ''fmt '' @ w32le b @ w16le c @ u16le nch @ u32le rate @
        w32le x @ w16le y @ u16le bps @ ascii ''data''" 40 len] assms(4)
    by (simp add: wav_def ascii_def w32le_def w16le_def u32le_def u16le_def)
qed

text \<open>
  Claim C9, as amended. For every sequence of chunks that decode and every MIME type
  whose parsed descriptor holds natural numbers with channels and bits per sample below
  \<open>2^16\<close> and sample rate below \<open>2^32\<close>, when the total decoded length is below \<open>2^32\<close>,
  \<^verbatim>\<open>convertToWav\<close> returns a WAV file whose bytes 22-23, 24-27, 34-35 and 40-43, read as
  little-endian unsigned numbers, are exactly the channel count, the sample rate, the
  bits per sample and the total decoded length. (As stated for every MIME type the claim
  fails: the counterexample below has 65536 bits per sample and reads back 0.)
\<close>

theorem wav_fields_read_back:
  assumes "map base64ToUint8Array rawData = map Some chunks"
    and "parseMimeType mime = \<lparr>numChannels = Num (of_nat nch), sampleRate = Num (of_nat rate),
                                 bitsPerSample = Num (of_nat bps)\<rparr>"
    and "nch < 65536" and "rate < 4294967296" and "bps < 65536"
    and "length (concat chunks) < 4294967296"
  shows "\<exists>wav. convertToWav rawData mime = Some wav
           \<and> readUint16le wav 22 = nch
           \<and> readUint32le wav 24 = rate
           \<and> readUint16le wav 34 = bps
           \<and> readUint32le wav 40 = length (concat chunks)"
proof -
  let ?len = "length (concat chunks)"
  let ?a = "ToUint (jsAdd (Num 36) (Num (of_nat ?len))) :: 32 word"
  let ?x = "ToUint (jsDiv (jsMul (jsMul (Num (of_nat rate)) (Num (of_nat nch)))
                                 (Num (of_nat bps))) (Num 8)) :: 32 word"
  let ?y = "ToUint (jsDiv (jsMul (Num (of_nat nch)) (Num (of_nat bps))) (Num 8)) :: 16 word"
  let ?wav = "ascii ''RIFF'' @ w32le ?a @ ascii ''WAVE'' @ ascii ''fmt '' @
     w32le 16 @ w16le 1 @ u16le nch @ u32le rate @ w32le ?x @
     w16le ?y @ u16le bps @ ascii ''data'' @ u32le ?len @ concat chunks"
  have hdr: "headerLayout (Num (of_nat ?len)) (parseMimeType mime) @ concat chunks = ?wav"
    unfolding assms(2) headerLayout_def WavConversionOptions.simps
      ToUint_of_nat w32le_of_nat w16le_of_nat
    by (simp only: append_assoc)
  have "convertToWav rawData mime = Some ?wav"
    using convertToWav_decoded [OF assms(1), of mime] by (simp only: hdr)
  moreover have "readUint16le ?wav 22 = nch" "readUint32le ?wav 24 = rate"
    "readUint16le ?wav 34 = bps" "readUint32le ?wav 40 = ?len"
    using layout_fields [OF assms(3) assms(4) assms(5) assms(6),
        where a = ?a and b = 16 and c = 1 and x = ?x and y = ?y and payload = "concat chunks"]
    by blast+
  ultimately show ?thesis by blast
qed

theorem wav_fields_read_back_witness:
  "map base64ToUint8Array [''QUI='', ''Q0Q=''] = map Some [ascii ''AB'', ascii ''CD'']
   \<and> parseMimeType ''audio/L16;rate=16000''
       = \<lparr>numChannels = Num (of_nat 1), sampleRate = Num (of_nat 16000),
          bitsPerSample = Num (of_nat 16)\<rparr>
   \<and> (1::nat) < 65536 \<and> (16000::nat) < 4294967296 \<and> (16::nat) < 65536
   \<and> length (concat [ascii ''AB'', ascii ''CD'']) < 4294967296
   \<and> (\<exists>wav. convertToWav [''QUI='', ''Q0Q=''] ''audio/L16;rate=16000'' = Some wav
           \<and> readUint16le wav 22 = 1
           \<and> readUint32le wav 24 = 16000
           \<and> readUint16le wav 34 = 16
           \<and> readUint32le wav 40 = length (concat [ascii ''AB'', ascii ''CD'']))"
proof -
  have h1: "map base64ToUint8Array [''QUI='', ''Q0Q='']
            = map Some [ascii ''AB'', ascii ''CD'']"
    by (simp add: decode_QUI decode_Q0Q)
  have h2: "parseMimeType ''audio/L16;rate=16000''
       = \<lparr>numChannels = Num (of_nat 1), sampleRate = Num (of_nat 16000),
          bitsPerSample = Num (of_nat 16)\<rparr>"
    by (simp add: parseMimeType_L16_16000)
  have h3: "(1::nat) < 65536" and h4: "(16000::nat) < 4294967296" and h5: "(16::nat) < 65536"
    by simp_all
  have h6: "length (concat [ascii ''AB'', ascii ''CD'']) < 4294967296"
    by (simp add: ascii_def)
  show ?thesis
    using h1 h2 h3 h4 h5 h6 wav_fields_read_back [OF h1 h2 h3 h4 h5 h6] by (intro conjI)
qed

theorem wav_fields_read_back_counterexample:
  "parseMimeType ''audio/L65536''
     = \<lparr>numChannels = Num 1, sampleRate = Num 24000, bitsPerSample = Num 65536\<rparr>
   \<and> convertToWav [''QUI=''] ''audio/L65536''
     = Some (ascii ''RIFF'' @ u32le 38 @ ascii ''WAVE'' @ ascii ''fmt '' @
             u32le 16 @ u16le 1 @ u16le 1 @ u32le 24000 @ u32le 196608000 @
             u16le 8192 @ u16le 65536 @ ascii ''data'' @ u32le 2 @ ascii ''AB'')
   \<and> readUint16le (ascii ''RIFF'' @ u32le 38 @ ascii ''WAVE'' @ ascii ''fmt '' @
             u32le 16 @ u16le 1 @ u16le 1 @ u32le 24000 @ u32le 196608000 @
             u16le 8192 @ u16le 65536 @ ascii ''data'' @ u32le 2 @ ascii ''AB'') 34 = 0"
proof -
  have hdr: "headerLayout (Num 2)
               \<lparr>numChannels = Num 1, sampleRate = Num 24000, bitsPerSample = Num 65536\<rparr>
             = ascii ''RIFF'' @ u32le 38 @ ascii ''WAVE'' @ ascii ''fmt '' @
               u32le 16 @ u16le 1 @ u16le 1 @ u32le 24000 @ u32le 196608000 @
               u16le 8192 @ u16le 65536 @ ascii ''data'' @ u32le 2"
    using headerLayout_of_nat [where dataLength = 2 and nch = 1 and rate = 24000 and bps = 65536] by simp
  have dec: "map base64ToUint8Array [''QUI=''] = map Some [ascii ''AB'']"
    by (simp add: decode_QUI)
  have c: "concat [ascii ''AB''] = ascii ''AB''"
    by simp
  have l: "rat_of_nat (length (ascii ''AB'')) = 2"
    by (simp add: ascii_def)
  have wav: "convertToWav [''QUI=''] ''audio/L65536''
     = Some (ascii ''RIFF'' @ u32le 38 @ ascii ''WAVE'' @ ascii ''fmt '' @
             u32le 16 @ u16le 1 @ u16le 1 @ u32le 24000 @ u32le 196608000 @
             u16le 8192 @ u16le 65536 @ ascii ''data'' @ u32le 2 @ ascii ''AB'')"
    using convertToWav_decoded [OF dec, of "''audio/L65536''"]
    unfolding c l parseMimeType_L65536 hdr by (simp only: append_assoc)
  have rd: "readUint16le (ascii ''RIFF'' @ u32le 38 @ ascii ''WAVE'' @ ascii ''fmt '' @
             u32le 16 @ u16le 1 @ u16le 1 @ u32le 24000 @ u32le 196608000 @
             u16le 8192 @ u16le 65536 @ ascii ''data'' @ u32le 2 @ ascii ''AB'') 34 = 0"
    by (simp add: readUint16le_def ascii_def u16le_def u32le_def)
  show ?thesis
    using parseMimeType_L65536 wav rd by (intro conjI)
qed

text \<open>
  Claim C6 at the input \<open>audio/L16;rate=abc\<close>: the sample rate the code returns is
  \<open>NaN\<close>, not the default 24000, because the value of \<open>rate\<close> is stored without the
  \<^verbatim>\<open>isNaN\<close> test that guards the bits per sample; with malformed bits (\<open>audio/Labc\<close>) the
  default 16 does stay in place.
\<close>

theorem parseMimeType_malformed_rate:
  "parseMimeType ''audio/L16;rate=abc''
     = \<lparr>numChannels = Num 1, sampleRate = NaN, bitsPerSample = Num 16\<rparr>
   \<and> parseMimeType ''audio/Labc;rate=16000''
     = \<lparr>numChannels = Num 1, sampleRate = Num 16000, bitsPerSample = Num 16\<rparr>"
  by (simp add: parse_defs)

section \<open>The turn loop: what one part, one message and one turn do\<close>

lemma processPart_turnText: "turnText (processPart st p) = turnText st @ partTextOf p"
  by (simp add: processPart_def partTextOf_def Let_def split: option.split)

lemma processPart_turnCompleteVar: "turnCompleteVar (processPart st p) = turnCompleteVar st"
  by (simp add: processPart_def Let_def split: option.split)

lemma processPart_audioParts:
  "audioParts (processPart st p) = audioParts st @ (if partData p = [] then [] else [partData p])"
  by (simp add: processPart_def partData_def Let_def split: option.split)

lemma processPart_audioMimeType:
  "audioMimeType (processPart st p) =
     (if audioMimeType st \<noteq> [] then audioMimeType st else partMime p)"
  by (simp add: processPart_def partMime_def partData_def Let_def split: option.split)

lemma firstNonEmpty_Cons:
  "firstNonEmpty (s # ss) = (if s \<noteq> [] then s else firstNonEmpty ss)"
  by (simp add: firstNonEmpty_def)

lemma firstNonEmpty_Nil: "firstNonEmpty [] = []"
  by (simp add: firstNonEmpty_def)

lemma firstNonEmpty_append:
  "firstNonEmpty (xs @ ys) = (if firstNonEmpty xs \<noteq> [] then firstNonEmpty xs else firstNonEmpty ys)"
  by (induction xs) (simp_all add: firstNonEmpty_Cons firstNonEmpty_Nil)

lemma foldl_processPart_turnText:
  "turnText (foldl processPart st ps) = turnText st @ concat (map partTextOf ps)"
  by (induction ps arbitrary: st) (simp_all add: processPart_turnText)

lemma foldl_processPart_turnCompleteVar:
  "turnCompleteVar (foldl processPart st ps) = turnCompleteVar st"
  by (induction ps arbitrary: st) (simp_all add: processPart_turnCompleteVar)

lemma foldl_processPart_audioMimeType:
  "audioMimeType (foldl processPart st ps) =
     (if audioMimeType st \<noteq> [] then audioMimeType st else firstNonEmpty (map partMime ps))"
  by (induction ps arbitrary: st)
     (simp_all add: processPart_audioMimeType firstNonEmpty_Cons firstNonEmpty_Nil)

lemma turnStep_turnText:
  "turnText (turnStep st m) = turnText st @ concat (map partTextOf (partsOf m))"
  by (simp add: turnStep_def partsOf_def Let_def foldl_processPart_turnText split: option.split)

lemma turnStep_turnCompleteVar:
  "turnCompleteVar (turnStep st m) = (turnCompleteVar st \<or> messageTurnComplete m)"
  by (simp add: turnStep_def Let_def foldl_processPart_turnCompleteVar split: option.split)

lemma turnStep_audioMimeType:
  "audioMimeType (turnStep st m) =
     (if audioMimeType st \<noteq> [] then audioMimeType st
      else firstNonEmpty (map partMime (partsOf m)))"
  by (simp add: turnStep_def partsOf_def Let_def foldl_processPart_audioMimeType firstNonEmpty_Nil
      split: option.split)

lemma foldl_turnStep_turnText:
  "turnText (foldl turnStep st ms) = turnText st @ concat (map partTextOf (allParts ms))"
  by (induction ms arbitrary: st) (simp_all add: turnStep_turnText allParts_def)

lemma foldl_turnStep_turnCompleteVar:
  "turnCompleteVar (foldl turnStep st ms) = (turnCompleteVar st \<or> list_ex messageTurnComplete ms)"
  by (induction ms arbitrary: st) (simp_all add: turnStep_turnCompleteVar)

lemma foldl_turnStep_audioMimeType:
  "audioMimeType (foldl turnStep st ms) =
     (if audioMimeType st \<noteq> [] then audioMimeType st
      else firstNonEmpty (map partMime (allParts ms)))"
  by (induction ms arbitrary: st)
     (simp_all add: turnStep_audioMimeType allParts_def firstNonEmpty_append firstNonEmpty_Nil)

lemma turnLoop_complete: "turnCompleteVar st \<Longrightarrow> turnLoop st queue = Some (st, queue)"
  by (cases queue) simp_all

text \<open>The loop consumes the messages up to and including the first one that carries
  \<^verbatim>\<open>turnComplete\<close>, and leaves the rest queued.\<close>

lemma turnLoop_prefix:
  "\<not> turnCompleteVar st \<Longrightarrow> \<not> list_ex messageTurnComplete pre \<Longrightarrow> messageTurnComplete m \<Longrightarrow>
   turnLoop st (pre @ m # rest) = Some (foldl turnStep st (pre @ [m]), rest)"
proof (induction pre arbitrary: st)
  case Nil
  then show ?case by (simp add: turnLoop_complete turnStep_turnCompleteVar)
next
  case (Cons x pre)
  then have "\<not> turnCompleteVar (turnStep st x)"
    by (simp add: turnStep_turnCompleteVar)
  with Cons show ?case by simp
qed

lemma turnLoop_None_iff:
  "\<not> turnCompleteVar st \<Longrightarrow> (turnLoop st ms = None) = (\<not> list_ex messageTurnComplete ms)"
proof (induction ms arbitrary: st)
  case Nil
  then show ?case by simp
next
  case (Cons m ms)
  show ?case
  proof (cases "messageTurnComplete m")
    case True
    then have "turnCompleteVar (turnStep st m)"
      by (simp add: turnStep_turnCompleteVar)
    then show ?thesis using Cons.prems True by (simp add: turnLoop_complete)
  next
    case False
    then have "\<not> turnCompleteVar (turnStep st m)"
      using Cons.prems by (simp add: turnStep_turnCompleteVar)
    from Cons.IH [OF this] show ?thesis using Cons.prems False by simp
  qed
qed

lemma initialTurnState_simps:
  "audioParts (initialTurnState ap) = ap" "\<not> turnCompleteVar (initialTurnState ap)"
  "turnText (initialTurnState ap) = []" "audioMimeType (initialTurnState ap) = []"
  by (simp_all add: initialTurnState_def)

lemma handleTurn_Waiting_iff:
  "(handleTurn ap ms = Waiting) = (turnLoop (initialTurnState ap) ms = None)"
  by (simp add: handleTurn_def split: option.split)

lemmas turn_defs = initialTurnState_def turnStep_def messageParts_def messageTurnComplete_def
  partsMessage_def audioPart_def textPart_def turnCompleteMessage_def processPart_def

text \<open>
  Claim C3. When the messages \<open>pre\<close> carry no \<^verbatim>\<open>turnComplete\<close> and the message \<open>m\<close> after
  them does, the loop of \<^verbatim>\<open>handleTurn\<close> returns after \<open>m\<close>, leaves the later messages
  queued, and the transcript is the concatenation, in arrival order, of the texts of all
  parts of \<open>pre\<close> and \<open>m\<close>: it depends on the sequence of parts only, not on how they are
  grouped into messages, and audio parts contribute nothing to it. \<^verbatim>\<open>handleTurn\<close> itself
  then finishes with that transcript, unless building the WAV file throws.
\<close>

theorem transcript_is_concatenation_of_texts:
  assumes "\<not> list_ex messageTurnComplete pre" and "messageTurnComplete m"
  shows "\<exists>st. turnLoop (initialTurnState ap) (pre @ m # rest) = Some (st, rest)
           \<and> turnText st = concat (map partTextOf (allParts (pre @ [m])))
           \<and> (case handleTurn ap (pre @ m # rest) of
                 Finished r \<Rightarrow> transcript r = concat (map partTextOf (allParts (pre @ [m])))
               | Threw \<Rightarrow> True
               | Waiting \<Rightarrow> False)"
proof -
  let ?st = "foldl turnStep (initialTurnState ap) (pre @ [m])"
  have loop: "turnLoop (initialTurnState ap) (pre @ m # rest) = Some (?st, rest)"
    using assms by (intro turnLoop_prefix) (simp_all add: initialTurnState_simps)
  have tx: "turnText ?st = concat (map partTextOf (allParts (pre @ [m])))"
    by (simp only: foldl_turnStep_turnText initialTurnState_simps append_Nil)
  have "case handleTurn ap (pre @ m # rest) of
          Finished r \<Rightarrow> transcript r = concat (map partTextOf (allParts (pre @ [m])))
        | Threw \<Rightarrow> True
        | Waiting \<Rightarrow> False"
    unfolding handleTurn_def loop using tx by (simp split: option.split)
  with loop tx show ?thesis by blast
qed

theorem transcript_is_concatenation_of_texts_witness:
  "\<not> list_ex messageTurnComplete
        [partsMessage [textPart ''Hel''] False, partsMessage [textPart ''lo''] False]
   \<and> messageTurnComplete turnCompleteMessage
   \<and> (\<exists>st. turnLoop (initialTurnState [])
               ([partsMessage [textPart ''Hel''] False, partsMessage [textPart ''lo''] False]
                @ turnCompleteMessage # []) = Some (st, [])
           \<and> turnText st = concat (map partTextOf (allParts
               ([partsMessage [textPart ''Hel''] False, partsMessage [textPart ''lo''] False]
                @ [turnCompleteMessage])))
           \<and> (case handleTurn []
                 ([partsMessage [textPart ''Hel''] False, partsMessage [textPart ''lo''] False]
                  @ turnCompleteMessage # []) of
                 Finished r \<Rightarrow> transcript r = concat (map partTextOf (allParts
                   ([partsMessage [textPart ''Hel''] False, partsMessage [textPart ''lo''] False]
                    @ [turnCompleteMessage])))
               | Threw \<Rightarrow> True
               | Waiting \<Rightarrow> False))
   \<and> concat (map partTextOf (allParts
        ([partsMessage [textPart ''Hel''] False, partsMessage [textPart ''lo''] False]
         @ [turnCompleteMessage]))) = ''Hello''"
proof -
  have h1: "\<not> list_ex messageTurnComplete
        [partsMessage [textPart ''Hel''] False, partsMessage [textPart ''lo''] False]"
    by (simp add: messageTurnComplete_def partsMessage_def)
  have h2: "messageTurnComplete turnCompleteMessage"
    by (simp add: messageTurnComplete_def turnCompleteMessage_def)
  have v: "concat (map partTextOf (allParts
        ([partsMessage [textPart ''Hel''] False, partsMessage [textPart ''lo''] False]
         @ [turnCompleteMessage]))) = ''Hello''"
    by (simp add: allParts_def partsOf_def partTextOf_def messageParts_def partsMessage_def
        textPart_def turnCompleteMessage_def)
  show ?thesis
    using h1 h2 v transcript_is_concatenation_of_texts [OF h1 h2, of "[]" "[]"]
    by (intro conjI)
qed

text \<open>
  Claim C4. A turn completes if and only if some message delivered to it has
  \<^verbatim>\<open>turnComplete\<close> true: \<^verbatim>\<open>handleTurn\<close> waits for ever (its loop never exits) exactly when
  no message of the sequence has the flag; after any number \<open>k\<close> of messages the loop
  variable is true exactly when one of them had the flag, so it is never set on a
  sequence without one; one step sets it exactly when the message has the flag; and a
  message with the flag completes the turn whatever parts it carries, or none.
\<close>

theorem turn_completes_iff_turnComplete_message:
  "(handleTurn ap ms = Waiting) = (\<not> list_ex messageTurnComplete ms)
   \<and> (turnLoop (initialTurnState ap) ms = None) = (\<not> list_ex messageTurnComplete ms)
   \<and> turnCompleteVar (foldl turnStep (initialTurnState ap) (take k ms))
       = list_ex messageTurnComplete (take k ms)
   \<and> turnCompleteVar (turnStep st m) = (turnCompleteVar st \<or> messageTurnComplete m)
   \<and> messageTurnComplete \<lparr>serverContent = Some \<lparr>modelTurn = mt, turnComplete = Some True\<rparr>\<rparr>"
proof -
  have loop: "(turnLoop (initialTurnState ap) ms = None) = (\<not> list_ex messageTurnComplete ms)"
    by (rule turnLoop_None_iff) (simp add: initialTurnState_simps)
  have step: "turnCompleteVar (foldl turnStep (initialTurnState ap) (take k ms))
       = list_ex messageTurnComplete (take k ms)"
    by (simp only: foldl_turnStep_turnCompleteVar initialTurnState_simps simp_thms)
  have flag: "messageTurnComplete
                \<lparr>serverContent = Some \<lparr>modelTurn = mt, turnComplete = Some True\<rparr>\<rparr>"
    by (simp add: messageTurnComplete_def)
  show ?thesis
    using loop step flag by (simp only: handleTurn_Waiting_iff turnStep_turnCompleteVar simp_thms)
qed

lemma convertToWav_AB_CD:
  "convertToWav [''QUI='', ''Q0Q=''] ''audio/L16;rate=16000''
       = Some (ascii ''RIFF'' @ u32le 40 @ ascii ''WAVE'' @ ascii ''fmt '' @
               u32le 16 @ u16le 1 @ u16le 1 @ u32le 16000 @ u32le 32000 @
               u16le 2 @ u16le 16 @ ascii ''data'' @ u32le 4 @ ascii ''ABCD'')"
proof -
  have hdr: "headerLayout (Num 4)
               \<lparr>numChannels = Num 1, sampleRate = Num 16000, bitsPerSample = Num 16\<rparr>
             = ascii ''RIFF'' @ u32le 40 @ ascii ''WAVE'' @ ascii ''fmt '' @
               u32le 16 @ u16le 1 @ u16le 1 @ u32le 16000 @ u32le 32000 @
               u16le 2 @ u16le 16 @ ascii ''data'' @ u32le 4"
    using headerLayout_of_nat [where dataLength = 4 and nch = 1 and rate = 16000 and bps = 16] by simp
  have dec: "map base64ToUint8Array [''QUI='', ''Q0Q='']
             = map Some [ascii ''AB'', ascii ''CD'']"
    by (simp add: decode_QUI decode_Q0Q)
  have c: "concat [ascii ''AB'', ascii ''CD''] = ascii ''ABCD''"
    by (simp add: ascii_def)
  have l: "rat_of_nat (length (ascii ''ABCD'')) = 4"
    by (simp add: ascii_def)
  show ?thesis
    using convertToWav_decoded [OF dec, of "''audio/L16;rate=16000''"]
    unfolding c l parseMimeType_L16_16000 hdr by (simp only: append_assoc)
qed

lemma convertToWav_CD:
  "convertToWav [''Q0Q=''] ''audio/L16;rate=16000''
       = Some (ascii ''RIFF'' @ u32le 38 @ ascii ''WAVE'' @ ascii ''fmt '' @
               u32le 16 @ u16le 1 @ u16le 1 @ u32le 16000 @ u32le 32000 @
               u16le 2 @ u16le 16 @ ascii ''data'' @ u32le 2 @ ascii ''CD'')"
proof -
  have hdr: "headerLayout (Num 2)
               \<lparr>numChannels = Num 1, sampleRate = Num 16000, bitsPerSample = Num 16\<rparr>
             = ascii ''RIFF'' @ u32le 38 @ ascii ''WAVE'' @ ascii ''fmt '' @
               u32le 16 @ u16le 1 @ u16le 1 @ u32le 16000 @ u32le 32000 @
               u16le 2 @ u16le 16 @ ascii ''data'' @ u32le 2"
    using headerLayout_of_nat [where dataLength = 2 and nch = 1 and rate = 16000 and bps = 16] by simp
  have dec: "map base64ToUint8Array [''Q0Q=''] = map Some [ascii ''CD'']"
    by (simp add: decode_Q0Q)
  have c: "concat [ascii ''CD''] = ascii ''CD''"
    by simp
  have l: "rat_of_nat (length (ascii ''CD'')) = 2"
    by (simp add: ascii_def)
  show ?thesis
    using convertToWav_decoded [OF dec, of "''audio/L16;rate=16000''"]
    unfolding c l parseMimeType_L16_16000 hdr by (simp only: append_assoc)
qed

text \<open>
  Claim C5 at a failing input. In the first turn an audio part with data \<open>QUI=\<close> (the
  bytes \<open>AB\<close>) and no MIME type arrives with \<^verbatim>\<open>turnComplete\<close>: no audio is produced and
  the global \<^verbatim>\<open>audioParts\<close> keeps the chunk. The second turn receives \<open>Q0Q=\<close> (the bytes
  \<open>CD\<close>) with a MIME type: its WAV file holds the four bytes \<open>ABCD\<close>, the first two from
  the first turn, where a turn started on an empty buffer yields \<open>CD\<close> alone.
\<close>

theorem audio_chunks_leak_into_next_turn:
  "handleTurn [] [partsMessage [audioPart ''QUI='' None] True,
                  partsMessage [audioPart ''Q0Q='' (Some ''audio/L16;rate=16000'')] True]
     = Finished \<lparr>transcript = [], audio = None, audioPartsAfter = [''QUI=''],
         queueAfter = [partsMessage [audioPart ''Q0Q='' (Some ''audio/L16;rate=16000'')] True]\<rparr>
   \<and> handleTurn [''QUI='']
        [partsMessage [audioPart ''Q0Q='' (Some ''audio/L16;rate=16000'')] True]
     = Finished \<lparr>transcript = [],
         audio = Some (ascii ''RIFF'' @ u32le 40 @ ascii ''WAVE'' @ ascii ''fmt '' @
                       u32le 16 @ u16le 1 @ u16le 1 @ u32le 16000 @ u32le 32000 @
                       u16le 2 @ u16le 16 @ ascii ''data'' @ u32le 4 @ ascii ''ABCD''),
         audioPartsAfter = [], queueAfter = []\<rparr>
   \<and> handleTurn [] [partsMessage [audioPart ''Q0Q='' (Some ''audio/L16;rate=16000'')] True]
     = Finished \<lparr>transcript = [],
         audio = Some (ascii ''RIFF'' @ u32le 38 @ ascii ''WAVE'' @ ascii ''fmt '' @
                       u32le 16 @ u16le 1 @ u16le 1 @ u32le 16000 @ u32le 32000 @
                       u16le 2 @ u16le 16 @ ascii ''data'' @ u32le 2 @ ascii ''CD''),
         audioPartsAfter = [], queueAfter = []\<rparr>"
  by (simp add: handleTurn_def turn_defs convertToWav_AB_CD convertToWav_CD)

text \<open>
  Claim C7, as amended. Within one turn the audio format string is the MIME type of the
  first part that carries audio data and a present, non-empty MIME type (the empty
  string when there is none); once it is non-empty no later part changes it. (As
  stated the claim fails when the first audio part has no MIME type: the format is then
  taken from a later part, as the counterexample below shows.)
\<close>

theorem audio_format_is_first_nonempty_mimeType:
  assumes "\<not> list_ex messageTurnComplete pre" and "messageTurnComplete m"
  shows "(\<exists>st. turnLoop (initialTurnState ap) (pre @ m # rest) = Some (st, rest)
            \<and> audioMimeType st = firstNonEmpty (map partMime (allParts (pre @ [m]))))
         \<and> (audioMimeType s \<noteq> [] \<longrightarrow> audioMimeType (processPart s p) = audioMimeType s)"
proof -
  let ?st = "foldl turnStep (initialTurnState ap) (pre @ [m])"
  have loop: "turnLoop (initialTurnState ap) (pre @ m # rest) = Some (?st, rest)"
    using assms by (intro turnLoop_prefix) (simp_all add: initialTurnState_simps)
  have fmt: "audioMimeType ?st = firstNonEmpty (map partMime (allParts (pre @ [m])))"
    by (simp only: foldl_turnStep_audioMimeType initialTurnState_simps simp_thms if_False)
  have keep: "audioMimeType s \<noteq> [] \<longrightarrow> audioMimeType (processPart s p) = audioMimeType s"
    by (simp add: processPart_audioMimeType)
  from loop fmt keep show ?thesis by blast
qed

theorem audio_format_is_first_nonempty_mimeType_witness:
  "\<not> list_ex messageTurnComplete []
   \<and> messageTurnComplete (partsMessage [audioPart ''QUI='' None,
                                         audioPart ''Q0Q='' (Some ''audio/L8;rate=8000'')] True)
   \<and> (\<exists>st. turnLoop (initialTurnState [])
               ([] @ partsMessage [audioPart ''QUI='' None,
                                   audioPart ''Q0Q='' (Some ''audio/L8;rate=8000'')] True # [])
             = Some (st, [])
           \<and> audioMimeType st = firstNonEmpty (map partMime (allParts
               ([] @ [partsMessage [audioPart ''QUI='' None,
                                    audioPart ''Q0Q='' (Some ''audio/L8;rate=8000'')] True]))))
   \<and> audioMimeType ((initialTurnState [])\<lparr>audioMimeType := ''audio/L16''\<rparr>) \<noteq> []
   \<and> audioMimeType (processPart ((initialTurnState [])\<lparr>audioMimeType := ''audio/L16''\<rparr>)
                        (audioPart ''Q0Q='' (Some ''audio/L8;rate=8000'')))
       = audioMimeType ((initialTurnState [])\<lparr>audioMimeType := ''audio/L16''\<rparr>)
   \<and> firstNonEmpty (map partMime (allParts
        ([] @ [partsMessage [audioPart ''QUI='' None,
                             audioPart ''Q0Q='' (Some ''audio/L8;rate=8000'')] True])))
       = ''audio/L8;rate=8000''"
proof -
  have h1: "\<not> list_ex messageTurnComplete []"
    by simp
  have h2: "messageTurnComplete (partsMessage [audioPart ''QUI='' None,
                                         audioPart ''Q0Q='' (Some ''audio/L8;rate=8000'')] True)"
    by (simp add: messageTurnComplete_def partsMessage_def)
  have h3: "audioMimeType ((initialTurnState [])\<lparr>audioMimeType := ''audio/L16''\<rparr>) \<noteq> []"
    by simp
  have v: "firstNonEmpty (map partMime (allParts
        ([] @ [partsMessage [audioPart ''QUI='' None,
                             audioPart ''Q0Q='' (Some ''audio/L8;rate=8000'')] True])))
       = ''audio/L8;rate=8000''"
    by (simp add: firstNonEmpty_def partMime_def partData_def allParts_def partsOf_def
        messageParts_def partsMessage_def audioPart_def)
  note t = audio_format_is_first_nonempty_mimeType [OF h1 h2, of "[]" "[]"
      "(initialTurnState [])\<lparr>audioMimeType := ''audio/L16''\<rparr>"
      "audioPart ''Q0Q='' (Some ''audio/L8;rate=8000'')"]
  show ?thesis
    using h1 h2 h3 v conjunct1 [OF t] mp [OF conjunct2 [OF t] h3] by (intro conjI)
qed

theorem audio_format_is_first_nonempty_mimeType_counterexample:
  "turnLoop (initialTurnState [])
     [partsMessage [audioPart ''QUI='' None,
                    audioPart ''Q0Q='' (Some ''audio/L8;rate=8000'')] True]
     = Some (\<lparr>audioParts = [''QUI='', ''Q0Q=''], turnCompleteVar = True, turnText = [],
              audioMimeType = ''audio/L8;rate=8000'', shown = []\<rparr>, [])
   \<and> turnLoop (initialTurnState [])
     [partsMessage [audioPart ''QUI='' None,
                    audioPart ''Q0Q='' (Some ''audio/L16;rate=16000'')] True]
     = Some (\<lparr>audioParts = [''QUI='', ''Q0Q=''], turnCompleteVar = True, turnText = [],
              audioMimeType = ''audio/L16;rate=16000'', shown = []\<rparr>, [])"
  by (simp add: turn_defs)

text \<open>
  Claim C8. A part whose inline data has no \<^verbatim>\<open>data\<close> field adds nothing to the audio
  buffer and leaves the audio format as it was (only its text, if any, is appended to
  the transcript), and no step of the loop can fail. A turn whose loop ends with an empty
  audio buffer or without an audio format finishes without audio, builds no WAV file
  and still returns its transcript.
\<close>

theorem audio_part_without_data_is_skipped:
  "(inlineData p = Some blob \<and> data blob = None \<longrightarrow>
      audioParts (processPart st p) = audioParts st
      \<and> audioMimeType (processPart st p) = audioMimeType st
      \<and> turnText (processPart st p) = turnText st @ partTextOf p)
   \<and> (turnLoop (initialTurnState ap) queue = Some (st', rest)
      \<and> (audioParts st' = [] \<or> audioMimeType st' = []) \<longrightarrow>
      handleTurn ap queue
        = Finished \<lparr>transcript = turnText st', audio = None,
                     audioPartsAfter = audioParts st', queueAfter = rest\<rparr>)"
proof -
  have skip: "inlineData p = Some blob \<and> data blob = None \<longrightarrow>
      audioParts (processPart st p) = audioParts st
      \<and> audioMimeType (processPart st p) = audioMimeType st
      \<and> turnText (processPart st p) = turnText st @ partTextOf p"
    by (simp add: processPart_audioParts processPart_audioMimeType processPart_turnText
        partData_def partMime_def)
  have none: "turnLoop (initialTurnState ap) queue = Some (st', rest)
      \<and> (audioParts st' = [] \<or> audioMimeType st' = []) \<longrightarrow>
      handleTurn ap queue
        = Finished \<lparr>transcript = turnText st', audio = None,
                     audioPartsAfter = audioParts st', queueAfter = rest\<rparr>"
    by (auto simp add: handleTurn_def)
  from skip none show ?thesis by (rule conjI)
qed

theorem audio_part_without_data_is_skipped_witness:
  "inlineData \<lparr>partText = Some ''Hi'', inlineData = Some \<lparr>data = None, mimeType = Some ''audio/L16''\<rparr>\<rparr>
     = Some \<lparr>data = None, mimeType = Some ''audio/L16''\<rparr>
   \<and> data \<lparr>data = None, mimeType = Some ''audio/L16''\<rparr> = None
   \<and> audioParts (processPart (initialTurnState [])
        \<lparr>partText = Some ''Hi'', inlineData = Some \<lparr>data = None, mimeType = Some ''audio/L16''\<rparr>\<rparr>)
       = audioParts (initialTurnState [])
   \<and> audioMimeType (processPart (initialTurnState [])
        \<lparr>partText = Some ''Hi'', inlineData = Some \<lparr>data = None, mimeType = Some ''audio/L16''\<rparr>\<rparr>)
       = audioMimeType (initialTurnState [])
   \<and> turnText (processPart (initialTurnState [])
        \<lparr>partText = Some ''Hi'', inlineData = Some \<lparr>data = None, mimeType = Some ''audio/L16''\<rparr>\<rparr>)
       = turnText (initialTurnState []) @ partTextOf
        \<lparr>partText = Some ''Hi'', inlineData = Some \<lparr>data = None, mimeType = Some ''audio/L16''\<rparr>\<rparr>
   \<and> turnLoop (initialTurnState [])
        [partsMessage [\<lparr>partText = Some ''Hi'',
            inlineData = Some \<lparr>data = None, mimeType = Some ''audio/L16''\<rparr>\<rparr>] True]
       = Some (\<lparr>audioParts = [], turnCompleteVar = True, turnText = ''Hi'',
                audioMimeType = [], shown = [''Hi'']\<rparr>, [])
   \<and> handleTurn []
        [partsMessage [\<lparr>partText = Some ''Hi'',
            inlineData = Some \<lparr>data = None, mimeType = Some ''audio/L16''\<rparr>\<rparr>] True]
       = Finished \<lparr>transcript = ''Hi'', audio = None, audioPartsAfter = [], queueAfter = []\<rparr>"
proof -
  let ?p = "\<lparr>partText = Some ''Hi'',
             inlineData = Some \<lparr>data = None, mimeType = Some ''audio/L16''\<rparr>\<rparr>"
  let ?st' = "\<lparr>audioParts = [], turnCompleteVar = True, turnText = ''Hi'',
               audioMimeType = [], shown = [''Hi'']\<rparr>"
  have h1: "inlineData ?p = Some \<lparr>data = None, mimeType = Some ''audio/L16''\<rparr>
            \<and> data \<lparr>data = None, mimeType = Some ''audio/L16''\<rparr> = None"
    by simp
  have h2: "turnLoop (initialTurnState []) [partsMessage [?p] True] = Some (?st', [])
            \<and> (audioParts ?st' = [] \<or> audioMimeType ?st' = [])"
    by (simp add: turn_defs)
  note t = audio_part_without_data_is_skipped [of ?p "\<lparr>data = None, mimeType = Some ''audio/L16''\<rparr>"
      "initialTurnState []" "[]" "[partsMessage [?p] True]" ?st' "[]"]
  have c1: "audioParts (processPart (initialTurnState []) ?p) = audioParts (initialTurnState [])
      \<and> audioMimeType (processPart (initialTurnState []) ?p) = audioMimeType (initialTurnState [])
      \<and> turnText (processPart (initialTurnState []) ?p)
          = turnText (initialTurnState []) @ partTextOf ?p"
    using mp [OF conjunct1 [OF t] h1] .
  have c2: "handleTurn [] [partsMessage [?p] True]
       = Finished \<lparr>transcript = ''Hi'', audio = None, audioPartsAfter = [], queueAfter = []\<rparr>"
    using mp [OF conjunct2 [OF t] h2] by simp
  show ?thesis
    using h1 h2 c1 c2 by (intro conjI) (simp_all only: simp_thms)
qed

end
